theory Spec2Isabelle
  imports
    Complex_Main
    "HOL-Library.List_Lexorder"
    "HOL-Library.Option_ord"
    "HOL-Library.Product_Lexorder"
begin

section \<open>Python values\<close>

text \<open>
  A Python \<open>str\<close> is a sequence of Unicode code points, and \<open>len\<close>, \<open>in\<close>, \<open>==\<close>
  and \<open>difflib\<close> all count code points.  A text is therefore a list of code points
  (integers, as \<open>ord\<close> gives them); \<open>u\<close> turns an ASCII literal into such a list,
  and the Polish letters of the keyword tables are written as their code points.

  The amounts are SQL \<open>Float\<close> columns.  They are modelled as real numbers with exact
  arithmetic: rounding of binary floating point is outside the model.  A nullable column
  is an \<open>option\<close>; \<open>x or 0\<close> on such a column is \<open>or0\<close>.
\<close>

type_synonym ustr = "int list"

definition u :: "string \<Rightarrow> ustr" where
  "u s = map of_char s"

definition or0 :: "real option \<Rightarrow> real" where
  "or0 x = (case x of None \<Rightarrow> 0 | Some v \<Rightarrow> v)"

definition or_empty :: "ustr option \<Rightarrow> ustr" where
  "or_empty x = (case x of None \<Rightarrow> [] | Some s \<Rightarrow> s)"

text \<open>Truth value of an optional string, integer or boolean (\<open>if x:\<close>).\<close>

definition truthy_str :: "ustr option \<Rightarrow> bool" where
  "truthy_str x = (case x of None \<Rightarrow> False | Some s \<Rightarrow> s \<noteq> [])"

definition truthy_int :: "int option \<Rightarrow> bool" where
  "truthy_int x = (case x of None \<Rightarrow> False | Some n \<Rightarrow> n \<noteq> 0)"

definition truthy_bool :: "bool option \<Rightarrow> bool" where
  "truthy_bool x = (x = Some True)"

text \<open>\<open>needle in haystack\<close> on strings: the needle occurs as a contiguous block.\<close>

fun starts_with :: "'a list \<Rightarrow> 'a list \<Rightarrow> bool" where
  "starts_with [] s = True"
| "starts_with (k # ks) [] = False"
| "starts_with (k # ks) (c # cs) = (k = c \<and> starts_with ks cs)"

fun py_in :: "'a list \<Rightarrow> 'a list \<Rightarrow> bool" where
  "py_in kw [] = (kw = [])"
| "py_in kw (c # cs) = (starts_with kw (c # cs) \<or> py_in kw cs)"

text \<open>
  Four things the program takes from Python's Unicode database: \<open>str.lower\<close>, and the
  character classes \<open>\w\<close>, \<open>\s\<close> (also the white space of \<open>str.strip\<close>) and \<open>\d\<close>
  of \<open>re\<close> on a \<open>str\<close> pattern.  The database is not part of the program; the model
  takes the four as a parameter \<open>U\<close>, and every theorem below holds for every \<open>U\<close>, so
  also for Python's own tables.
\<close>

record unicode =
  str_lower :: "ustr \<Rightarrow> ustr"
  is_word :: "int \<Rightarrow> bool"
  is_space :: "int \<Rightarrow> bool"
  is_decimal :: "int \<Rightarrow> bool"

text \<open>
  The tables restricted to ASCII, on which the examples are run.  On a code point below
  128 Python has exactly these: \<open>lower\<close> maps \<open>A\<close>..\<open>Z\<close> to \<open>a\<close>..\<open>z\<close>, \<open>\w\<close> is
  \<open>[A-Za-z0-9_]\<close>, \<open>\s\<close> is the code points 9 to 13, 28 to 31 and 32, \<open>\d\<close> is
  \<open>[0-9]\<close>.  Every text of the examples is ASCII.
\<close>

definition ascii_tables :: unicode where
  "ascii_tables =
     \<lparr>str_lower = map (\<lambda>c. if 65 \<le> c \<and> c \<le> 90 then c + 32 else c),
      is_word = (\<lambda>c. (48 \<le> c \<and> c \<le> 57) \<or> (65 \<le> c \<and> c \<le> 90)
                      \<or> (97 \<le> c \<and> c \<le> 122) \<or> c = 95),
      is_space = (\<lambda>c. c \<in> {9, 10, 11, 12, 13, 28, 29, 30, 31, 32}),
      is_decimal = (\<lambda>c. 48 \<le> c \<and> c \<le> 57)\<rparr>"

text \<open>\<open>' '.join(fields)\<close>\<close>

fun join_space :: "ustr list \<Rightarrow> ustr" where
  "join_space [] = []"
| "join_space [s] = s"
| "join_space (s # t # ss) = s @ [32] @ join_space (t # ss)"

text \<open>\<open>for keyword in KEYWORDS: if keyword in content: ... break\<close>: the first keyword found.\<close>

definition first_keyword :: "ustr list \<Rightarrow> ustr \<Rightarrow> ustr option" where
  "first_keyword kws content = find (\<lambda>kw. py_in kw content) kws"

section \<open>The data model (models.py)\<close>

text \<open>
  The columns of \<open>BudgetEntry\<close> that the agents read or write.  \<open>year\<close>-indexed access
  (\<open>getattr(entry, f"kwota_{year}")\<close>) exists for 2025 to 2029 only; any other year
  raises \<open>AttributeError\<close>.
\<close>

record entry =
  entry_id :: int
  paragraf :: "int option"
  beneficjent_zadaniowy :: "ustr option"
  department_id :: "int option"
  opis_projektu :: "ustr option"
  nazwa_zadania :: "ustr option"
  szczegolowe_uzasadnienie :: "ustr option"
  kwota_2025 :: "real option"
  kwota_2026 :: "real option"
  kwota_2027 :: "real option"
  kwota_2028 :: "real option"
  kwota_2029 :: "real option"
  priority :: "ustr option"
  status :: "ustr option"
  is_obligatory :: "bool option"
  etap_dzialan :: "ustr option"
  umowy :: "ustr option"
  uwagi :: "ustr option"
  zadanie_inwestycyjne :: "ustr option"

record department =
  dept_id :: int
  dept_code :: ustr

record global_limit =
  limit_year :: int
  total_limit :: real

record budget_conflict =
  conflict_id :: int
  entry_a_id :: "int option"
  entry_b_id :: "int option"
  conflict_type :: "ustr option"
  similarity_score :: "real option"
  resolution_status :: "ustr option"
  resolution_notes :: "ustr option"

record store =
  entries :: "entry list"
  departments :: "department list"
  global_limits :: "global_limit list"
  conflicts :: "budget_conflict list"

datatype error = AttributeError | TypeError

definition valid_year :: "int \<Rightarrow> bool" where
  "valid_year y = (2025 \<le> y \<and> y \<le> 2029)"

definition kwota :: "int \<Rightarrow> entry \<Rightarrow> real option" where
  "kwota y e =
     (if y = 2025 then kwota_2025 e
      else if y = 2026 then kwota_2026 e
      else if y = 2027 then kwota_2027 e
      else if y = 2028 then kwota_2028 e
      else kwota_2029 e)"

definition set_kwota :: "int \<Rightarrow> real option \<Rightarrow> entry \<Rightarrow> entry" where
  "set_kwota y v e =
     (if y = 2025 then e\<lparr>kwota_2025 := v\<rparr>
      else if y = 2026 then e\<lparr>kwota_2026 := v\<rparr>
      else if y = 2027 then e\<lparr>kwota_2027 := v\<rparr>
      else if y = 2028 then e\<lparr>kwota_2028 := v\<rparr>
      else e\<lparr>kwota_2029 := v\<rparr>)"

text \<open>\<open>query(BudgetEntry).filter(BudgetEntry.id == i).first()\<close> and the write-back of a
  changed row at commit.\<close>

definition get_entry :: "store \<Rightarrow> int \<Rightarrow> entry option" where
  "get_entry db i = find (\<lambda>e. entry_id e = i) (entries db)"

definition put_entry :: "entry \<Rightarrow> store \<Rightarrow> store" where
  "put_entry e' db =
     db\<lparr>entries := map (\<lambda>e. if entry_id e = entry_id e' then e' else e) (entries db)\<rparr>"

section \<open>Compliance checker (compliance\_agent.py)\<close>

datatype pgroup = Investment | Current | Subsidy

text \<open>\<open>PARAGRAF_CLASSIFICATIONS\<close>: the group of each known paragraph code.  The display
  names and the per-paragraph keyword lists of the table are not read by any check.\<close>

definition PARAGRAF_CLASSIFICATIONS :: "int \<Rightarrow> pgroup option" where
  "PARAGRAF_CLASSIFICATIONS p =
     (if p \<in> {6010, 6020, 6050, 6060, 6070} then Some Investment
      else if p \<in> {4010, 4110, 4120, 4170, 4210, 4260, 4270, 4300, 4360, 4390, 4400,
                     4410, 4420, 4430, 4440, 4480, 4520, 4610} then Some Current
      else if p \<in> {2570, 2580} then Some Subsidy
      else None)"

definition INVESTMENT_KEYWORDS :: "ustr list" where
  "INVESTMENT_KEYWORDS =
     [u ''serwer'', u ''server'', u ''sprz'' @ [281] @ u ''t komputerowy'', u ''hardware'',
      u ''zakup sprz'' @ [281] @ u ''tu'', u ''infrastruktura'', u ''modernizacja'',
      u ''budowa'', u ''rozbudowa'', u ''urz'' @ [261] @ u ''dzenia sieciowe'',
      u ''switch'', u ''router'', u ''firewall'', u ''macierz'']"

definition CURRENT_KEYWORDS :: "ustr list" where
  "CURRENT_KEYWORDS =
     [u ''licencja'', u ''license'', u ''oprogramowanie'', u ''software'',
      u ''subskrypcja'', u ''subscription'', u ''szkolenie'', u ''training'',
      u ''us'' @ [322] @ u ''uga'', u ''serwis'', u ''support'', u ''utrzymanie'']"

text \<open>Each warning text of the source is one constructor, carrying the values the
  message is formatted with.\<close>

datatype warning =
    MissingParagraf
  | UnknownParagraf int
  | InvestmentKeywordWarning ustr int
  | CurrentKeywordWarning ustr
  | BzFormatWarning ustr
  | HighAmountWarning real
  | ObligatoryDropWarning
  | NoMultiYearWarning
  | MissingNameWarning
  | MissingDepartmentWarning
  | MissingInvestmentTaskWarning

definition compliance_content :: "unicode \<Rightarrow> entry \<Rightarrow> ustr" where
  "compliance_content U e =
     str_lower U (join_space [or_empty (nazwa_zadania e), or_empty (opis_projektu e),
                           or_empty (szczegolowe_uzasadnienie e),
                           or_empty (zadanie_inwestycyjne e), or_empty (uwagi e)])"

record paragraf_check =
  pc_warnings :: "warning list"
  pc_suggested_paragraf :: "int option"
  pc_reason :: "ustr option"

definition validate_paragraf :: "unicode \<Rightarrow> entry \<Rightarrow> paragraf_check" where
  "validate_paragraf U e =
     (case paragraf e of
        None \<Rightarrow> \<lparr>pc_warnings = [MissingParagraf], pc_suggested_paragraf = None, pc_reason = None\<rparr>
      | Some p \<Rightarrow>
          if p = 0 then
            \<lparr>pc_warnings = [MissingParagraf], pc_suggested_paragraf = None, pc_reason = None\<rparr>
          else
            (case PARAGRAF_CLASSIFICATIONS p of
               None \<Rightarrow>
                 \<lparr>pc_warnings = [UnknownParagraf p], pc_suggested_paragraf = None, pc_reason = None\<rparr>
             | Some g \<Rightarrow>
                 (let content = compliance_content U e;
                      r1 = (if g = Current then
                              (case first_keyword INVESTMENT_KEYWORDS content of
                                 None \<Rightarrow> \<lparr>pc_warnings = [], pc_suggested_paragraf = None,
                                          pc_reason = None\<rparr>
                               | Some kw \<Rightarrow>
                                   \<lparr>pc_warnings = [InvestmentKeywordWarning kw p],
                                    pc_suggested_paragraf = Some 6060, pc_reason = Some kw\<rparr>)
                            else \<lparr>pc_warnings = [], pc_suggested_paragraf = None,
                                  pc_reason = None\<rparr>)
                  in if g = Investment then
                       (case first_keyword CURRENT_KEYWORDS content of
                          None \<Rightarrow> r1
                        | Some kw \<Rightarrow> r1\<lparr>pc_warnings := pc_warnings r1 @ [CurrentKeywordWarning kw]\<rparr>)
                     else r1)))"

text \<open>The pattern \<open>^\d+\.\d+\.\d+\.\d+\.?$\<close> under \<open>re.match\<close>: four runs of decimal
  digits separated by dots, an optional final dot, and then the end of the string or one
  final newline (which \<open>$\<close> accepts).  A run \<open>\d+\<close> may stop after any of its digits,
  so \<open>after_digits\<close> returns every rest that a run can leave.\<close>

definition after_digits :: "unicode \<Rightarrow> ustr \<Rightarrow> ustr list" where
  "after_digits U s =
     map (\<lambda>n. drop n s)
       (filter (\<lambda>n. list_all (is_decimal U) (take n s)) [1..<Suc (length s)])"

definition after_dot :: "ustr \<Rightarrow> ustr list" where
  "after_dot s = (case s of [] \<Rightarrow> [] | c # cs \<Rightarrow> if c = 46 then [cs] else [])"

definition digits_after_dot :: "unicode \<Rightarrow> ustr list \<Rightarrow> ustr list" where
  "digits_after_dot U rests = concat (map (after_digits U) (concat (map after_dot rests)))"

definition bz_pattern_match :: "unicode \<Rightarrow> ustr \<Rightarrow> bool" where
  "bz_pattern_match U s =
     list_ex (\<lambda>r. r \<in> {[], [46], [10], [46, 10]})
       (digits_after_dot U (digits_after_dot U (digits_after_dot U (after_digits U s))))"

record 'c classification_check =
  cc_warnings :: "warning list"
  cc_auto_corrections :: "'c list"

record correction =
  corr_field :: ustr
  corr_original :: "int option"
  corr_corrected :: int
  corr_reason :: "ustr option"

definition validate_classification :: "unicode \<Rightarrow> entry \<Rightarrow> correction classification_check" where
  "validate_classification U e =
     (if \<not> truthy_int (paragraf e) then \<lparr>cc_warnings = [], cc_auto_corrections = []\<rparr>
      else if truthy_str (beneficjent_zadaniowy e) then
        (let bz = or_empty (beneficjent_zadaniowy e)
         in if \<not> bz_pattern_match U bz \<and> bz \<noteq> u ''0''
               \<and> str_lower U bz \<notin> set [u ''nd'', u ''n/d'', u ''nan'', []]
            then \<lparr>cc_warnings = [BzFormatWarning bz], cc_auto_corrections = []\<rparr>
            else \<lparr>cc_warnings = [], cc_auto_corrections = []\<rparr>)
      else \<lparr>cc_warnings = [], cc_auto_corrections = []\<rparr>)"

definition amounts_of :: "entry \<Rightarrow> real list" where
  "amounts_of e = [or0 (kwota_2025 e), or0 (kwota_2026 e), or0 (kwota_2027 e),
                   or0 (kwota_2028 e), or0 (kwota_2029 e)]"

definition validate_amounts :: "entry \<Rightarrow> warning list" where
  "validate_amounts e =
     (let amounts = amounts_of e;
          max_amount = Max (set amounts);
          w1 = (if max_amount > 50000 then [HighAmountWarning max_amount] else []);
          w2 = (if truthy_bool (is_obligatory e) \<and> amounts ! 0 > 0
                   \<and> amounts ! 1 < amounts ! 0 * 0.5
                then [ObligatoryDropWarning] else []);
          w3 = (if truthy_int (paragraf e) \<and> the (paragraf e) \<ge> 6000
                   \<and> amounts ! 0 > 1000 \<and> list_all (\<lambda>a. a = 0) (tl amounts)
                then [NoMultiYearWarning] else [])
      in w1 @ w2 @ w3)"

definition validate_required_fields :: "entry \<Rightarrow> warning list" where
  "validate_required_fields e =
     (let w1 = (if \<not> truthy_str (nazwa_zadania e) \<and> \<not> truthy_str (opis_projektu e)
                then [MissingNameWarning] else []);
          w2 = (if \<not> truthy_int (department_id e) then [MissingDepartmentWarning] else []);
          w3 = (if truthy_int (paragraf e) \<and> the (paragraf e) \<ge> 6000
                   \<and> \<not> truthy_str (zadanie_inwestycyjne e)
                then [MissingInvestmentTaskWarning] else [])
      in w1 @ w2 @ w3)"

record validation =
  is_valid :: bool
  warnings :: "warning list"
  auto_corrections :: "correction list"
  suggested_paragraf :: "int option"
  compliance_score :: int

definition validate_entry :: "unicode \<Rightarrow> entry \<Rightarrow> validation" where
  "validate_entry U e =
     (let r0 = \<lparr>is_valid = True, warnings = [], auto_corrections = [],
                suggested_paragraf = None, compliance_score = 100\<rparr>;
          r1 = (if truthy_int (paragraf e) then
                  (let pc = validate_paragraf U e;
                       r = r0\<lparr>warnings := warnings r0 @ pc_warnings pc\<rparr>
                   in if truthy_int (pc_suggested_paragraf pc) then
                        r\<lparr>suggested_paragraf := pc_suggested_paragraf pc,
                          auto_corrections := auto_corrections r @
                            [\<lparr>corr_field = u ''paragraf'', corr_original = paragraf e,
                              corr_corrected = the (pc_suggested_paragraf pc),
                              corr_reason = pc_reason pc\<rparr>],
                          compliance_score := compliance_score r - 20\<rparr>
                      else r)
                else r0);
          cc = validate_classification U e;
          r2 = r1\<lparr>warnings := warnings r1 @ cc_warnings cc\<rparr>;
          r3 = (if cc_auto_corrections cc \<noteq> [] then
                  r2\<lparr>auto_corrections := auto_corrections r2 @ cc_auto_corrections cc,
                     compliance_score := compliance_score r2 - 15\<rparr>
                else r2);
          aw = validate_amounts e;
          r4 = r3\<lparr>warnings := warnings r3 @ aw\<rparr>;
          r5 = (if aw \<noteq> [] then r4\<lparr>compliance_score := compliance_score r4 - 10\<rparr> else r4);
          fw = validate_required_fields e;
          r6 = r5\<lparr>warnings := warnings r5 @ fw\<rparr>;
          r7 = (if fw \<noteq> [] then
                  r6\<lparr>compliance_score := compliance_score r6 - 5 * int (length fw)\<rparr>
                else r6);
          r8 = r7\<lparr>is_valid := (compliance_score r7 \<ge> 70)\<rparr>
      in r8\<lparr>compliance_score := max 0 (compliance_score r8)\<rparr>)"

section \<open>The sequence matcher of the standard library (difflib)\<close>

text \<open>
  The conflict detector scores two texts with \<open>SequenceMatcher(None, a, b).ratio()\<close>.
  The matcher is embedded as the library defines it for \<open>isjunk = None\<close> and the default
  \<open>autojunk = True\<close>.

  \<open>__chain_b\<close> indexes \<open>b\<close>: \<open>b2j[x]\<close> lists, in increasing order, the positions of \<open>x\<close>
  in \<open>b\<close>.  With \<open>isjunk = None\<close> no element is junk.  When \<open>b\<close> has 200 elements or more,
  an element that occurs more than \<open>len(b) // 100 + 1\<close> times is popular and loses its
  entry.
\<close>

fun chain_b_loop :: "('a \<rightharpoonup> nat list) \<Rightarrow> nat \<Rightarrow> 'a list \<Rightarrow> ('a \<rightharpoonup> nat list)" where
  "chain_b_loop b2j i [] = b2j"
| "chain_b_loop b2j i (elt # rest) =
     chain_b_loop (b2j(elt \<mapsto> (case b2j elt of None \<Rightarrow> [] | Some idxs \<Rightarrow> idxs) @ [i]))
       (Suc i) rest"

definition chain_b :: "'a list \<Rightarrow> ('a \<rightharpoonup> nat list)" where
  "chain_b b =
     (let b2j = chain_b_loop Map.empty 0 b; n = length b
      in if n \<ge> 200 then
           (let ntest = n div 100 + 1
            in (\<lambda>elt. case b2j elt of None \<Rightarrow> None
                       | Some idxs \<Rightarrow> if length idxs > ntest then None else Some idxs))
         else b2j)"

definition isbjunk :: "'a \<Rightarrow> bool" where
  "isbjunk x = False"

text \<open>\<open>b2j.get(x, [])\<close> and \<open>j2len.get(j - 1, 0)\<close>.\<close>

definition b2j_get :: "('a \<rightharpoonup> nat list) \<Rightarrow> 'a \<Rightarrow> nat list" where
  "b2j_get b2j x = (case b2j x of None \<Rightarrow> [] | Some js \<Rightarrow> js)"

definition j2len_prev :: "(nat \<rightharpoonup> nat) \<Rightarrow> nat \<Rightarrow> nat" where
  "j2len_prev j2len j = (if j = 0 then 0 else case j2len (j - 1) of None \<Rightarrow> 0 | Some k \<Rightarrow> k)"

type_synonym match = "nat \<times> nat \<times> nat"

text \<open>\<open>find_longest_match\<close>: the inner loop over the positions \<open>j\<close> of \<open>a[i]\<close> in \<open>b\<close>
  (\<open>continue\<close> below \<open>blo\<close>, \<open>break\<close> from \<open>bhi\<close> on), the outer loop over
  \<open>i\<close>, and the four loops that extend the best block at both ends.\<close>

fun flm_inner ::
  "nat \<Rightarrow> nat \<Rightarrow> nat \<Rightarrow> (nat \<rightharpoonup> nat) \<Rightarrow> nat list \<Rightarrow> (nat \<rightharpoonup> nat) \<times> match \<Rightarrow> (nat \<rightharpoonup> nat) \<times> match"
where
  "flm_inner blo bhi i j2len [] st = st"
| "flm_inner blo bhi i j2len (j # js) (newj2len, besti, bestj, bestsize) =
     (if j < blo then flm_inner blo bhi i j2len js (newj2len, besti, bestj, bestsize)
      else if j \<ge> bhi then (newj2len, besti, bestj, bestsize)
      else (let k = j2len_prev j2len j + 1
            in flm_inner blo bhi i j2len js
                 (newj2len(j \<mapsto> k),
                  if k > bestsize then (i + 1 - k, j + 1 - k, k) else (besti, bestj, bestsize))))"

fun flm_outer ::
  "'a list \<Rightarrow> ('a \<rightharpoonup> nat list) \<Rightarrow> nat \<Rightarrow> nat \<Rightarrow> nat list \<Rightarrow> (nat \<rightharpoonup> nat) \<times> match \<Rightarrow> (nat \<rightharpoonup> nat) \<times> match"
where
  "flm_outer a b2j blo bhi [] st = st"
| "flm_outer a b2j blo bhi (i # rest) (j2len, best) =
     flm_outer a b2j blo bhi rest
       (flm_inner blo bhi i j2len (b2j_get b2j (a ! i)) (Map.empty, best))"

function extend_back :: "'a list \<Rightarrow> 'a list \<Rightarrow> bool \<Rightarrow> nat \<Rightarrow> nat \<Rightarrow> match \<Rightarrow> match" where
  "extend_back a b junk alo blo (besti, bestj, bestsize) =
     (if besti > alo \<and> bestj > blo \<and> isbjunk (b ! (bestj - 1)) = junk
         \<and> a ! (besti - 1) = b ! (bestj - 1)
      then extend_back a b junk alo blo (besti - 1, bestj - 1, bestsize + 1)
      else (besti, bestj, bestsize))"
  by pat_completeness auto
termination
  by (relation "measure (\<lambda>(a, b, junk, alo, blo, besti, bestj, bestsize). besti)") auto

function extend_fwd :: "'a list \<Rightarrow> 'a list \<Rightarrow> bool \<Rightarrow> nat \<Rightarrow> nat \<Rightarrow> match \<Rightarrow> match" where
  "extend_fwd a b junk ahi bhi (besti, bestj, bestsize) =
     (if besti + bestsize < ahi \<and> bestj + bestsize < bhi \<and> isbjunk (b ! (bestj + bestsize)) = junk
         \<and> a ! (besti + bestsize) = b ! (bestj + bestsize)
      then extend_fwd a b junk ahi bhi (besti, bestj, bestsize + 1)
      else (besti, bestj, bestsize))"
  by pat_completeness auto
termination
  by (relation "measure (\<lambda>(a, b, junk, ahi, bhi, besti, bestj, bestsize). ahi - (besti + bestsize))")
     auto

declare extend_back.simps [simp del]
declare extend_fwd.simps [simp del]

definition find_longest_match ::
  "'a list \<Rightarrow> 'a list \<Rightarrow> ('a \<rightharpoonup> nat list) \<Rightarrow> nat \<Rightarrow> nat \<Rightarrow> nat \<Rightarrow> nat \<Rightarrow> match" where
  "find_longest_match a b b2j alo ahi blo bhi =
     extend_fwd a b True ahi bhi
       (extend_back a b True alo blo
          (extend_fwd a b False ahi bhi
             (extend_back a b False alo blo
                (snd (flm_outer a b2j blo bhi [alo..<ahi] (Map.empty, alo, blo, 0))))))"

text \<open>The block that \<open>find_longest_match\<close> returns lies inside the range it was
  asked about.  This is what makes the work list of \<open>get_matching_blocks\<close> shrink.\<close>

definition best_ok :: "nat \<Rightarrow> nat \<Rightarrow> match \<Rightarrow> bool" where
  "best_ok alo ahi m = (case m of (besti, bestj, bestsize) \<Rightarrow>
      alo \<le> besti \<and> besti + bestsize \<le> max alo ahi)"

lemma j2len_prev_le:
  "(\<And>j k. j2len j = Some k \<Longrightarrow> k \<le> n) \<Longrightarrow> j2len_prev j2len j \<le> n"
  by (auto simp: j2len_prev_def split: option.splits)

lemma flm_inner_bounds:
  assumes "\<And>j k. j2len j = Some k \<Longrightarrow> k \<le> i - alo" and "alo \<le> i" and "i < ahi"
    and "best_ok alo ahi best" and "\<And>j k. new j = Some k \<Longrightarrow> k \<le> i + 1 - alo"
    and "flm_inner blo bhi i j2len js (new, best) = (new', best')"
  shows "best_ok alo ahi best' \<and> (\<forall>j k. new' j = Some k \<longrightarrow> k \<le> i + 1 - alo)"
  using assms(4-6)
proof (induction js arbitrary: new best)
  case Nil
  then show ?case by auto
next
  case (Cons j js)
  obtain bi bj bs where best: "best = (bi, bj, bs)" by (cases best) auto
  have kle: "j2len_prev j2len j + 1 \<le> i + 1 - alo"
    using j2len_prev_le[of j2len "i - alo" j] assms(1,2) by simp
  show ?case
  proof (cases "j < blo")
    case True
    then have "flm_inner blo bhi i j2len js (new, best) = (new', best')"
      using Cons.prems(3) by (simp add: best)
    from Cons.IH[OF Cons.prems(1) Cons.prems(2) this] show ?thesis .
  next
    case nlo: False
    show ?thesis
    proof (cases "j \<ge> bhi")
      case True
      with nlo Cons.prems best show ?thesis by auto
    next
      case False
      let ?k = "j2len_prev j2len j + 1"
      let ?best = "if ?k > bs then (i + 1 - ?k, j + 1 - ?k, ?k) else (bi, bj, bs)"
      have ok: "best_ok alo ahi ?best"
        using Cons.prems(1) kle assms(2,3) by (auto simp: best_ok_def best)
      have new: "\<And>j' k. (new(j \<mapsto> ?k)) j' = Some k \<Longrightarrow> k \<le> i + 1 - alo"
        using Cons.prems(2) kle by (auto split: if_splits)
      have "flm_inner blo bhi i j2len (j # js) (new, bi, bj, bs)
            = flm_inner blo bhi i j2len js (new(j \<mapsto> ?k), ?best)"
        using nlo False by (simp add: Let_def split del: if_split cong: if_cong)
      then have "flm_inner blo bhi i j2len js (new(j \<mapsto> ?k), ?best) = (new', best')"
        using Cons.prems(3) unfolding best by (simp only:)
      from Cons.IH[OF ok new this] show ?thesis .
    qed
  qed
qed

lemma flm_outer_bounds:
  assumes "\<And>j k. j2len j = Some k \<Longrightarrow> k \<le> i0 - alo" and "alo \<le> i0" and "best_ok alo ahi best"
  shows "best_ok alo ahi (snd (flm_outer a b2j blo bhi [i0..<ahi] (j2len, best)))"
  using assms
proof (induction "ahi - i0" arbitrary: i0 j2len best)
  case 0
  then show ?case by simp
next
  case (Suc n)
  then have lt: "i0 < ahi" by simp
  obtain new' best' where r: "flm_inner blo bhi i0 j2len (b2j_get b2j (a ! i0)) (Map.empty, best) = (new', best')"
    by (cases "flm_inner blo bhi i0 j2len (b2j_get b2j (a ! i0)) (Map.empty, best)") auto
  have inner: "best_ok alo ahi best' \<and> (\<forall>j k. new' j = Some k \<longrightarrow> k \<le> i0 + 1 - alo)"
    by (rule flm_inner_bounds[OF Suc.prems(1) Suc.prems(2) lt Suc.prems(3) _ r]) simp_all
  have "best_ok alo ahi (snd (flm_outer a b2j blo bhi [Suc i0..<ahi] (new', best')))"
    using Suc.hyps(1)[of "Suc i0" new' best'] Suc.hyps(2) inner Suc.prems(2) by auto
  then show ?case using lt r by (simp add: upt_conv_Cons)
qed

lemma extend_back_bounds:
  "best_ok alo ahi m \<Longrightarrow> best_ok alo ahi (extend_back a b junk alo blo m)"
proof (induction a b junk alo blo m rule: extend_back.induct)
  case (1 a b junk alo blo besti bestj bestsize)
  show ?case
  proof (cases "besti > alo \<and> bestj > blo \<and> isbjunk (b ! (bestj - 1)) = junk
         \<and> a ! (besti - 1) = b ! (bestj - 1)")
    case True
    have "best_ok alo ahi (besti - 1, bestj - 1, bestsize + 1)"
      using True "1.prems" by (auto simp: best_ok_def)
    from "1.IH"[OF True this] show ?thesis using True by (subst extend_back.simps) simp
  next
    case False
    then show ?thesis using "1.prems" by (subst extend_back.simps) auto
  qed
qed

lemma extend_fwd_bounds:
  "best_ok alo ahi m \<Longrightarrow> best_ok alo ahi (extend_fwd a b junk ahi bhi m)"
proof (induction a b junk ahi bhi m rule: extend_fwd.induct)
  case (1 a b junk ahi bhi besti bestj bestsize)
  show ?case
  proof (cases "besti + bestsize < ahi \<and> bestj + bestsize < bhi
         \<and> isbjunk (b ! (bestj + bestsize)) = junk
         \<and> a ! (besti + bestsize) = b ! (bestj + bestsize)")
    case True
    have "best_ok alo ahi (besti, bestj, bestsize + 1)"
      using True "1.prems" by (auto simp: best_ok_def)
    from "1.IH"[OF True this] show ?thesis using True by (subst extend_fwd.simps) simp
  next
    case False
    then show ?thesis using "1.prems" by (subst extend_fwd.simps) auto
  qed
qed

lemma find_longest_match_bounds:
  assumes "find_longest_match a b b2j alo ahi blo bhi = (i, j, k)"
  shows "alo \<le> i \<and> i + k \<le> max alo ahi"
proof -
  have "best_ok alo ahi (snd (flm_outer a b2j blo bhi [alo..<ahi] (Map.empty, alo, blo, 0)))"
    by (rule flm_outer_bounds) (simp_all add: best_ok_def)
  then have "best_ok alo ahi (find_longest_match a b b2j alo ahi blo bhi)"
    unfolding find_longest_match_def
    by (intro extend_fwd_bounds extend_back_bounds)
  then show ?thesis using assms by (simp add: best_ok_def)
qed

text \<open>\<open>get_matching_blocks\<close>: the work list \<open>queue\<close> is used as a stack
  (\<open>append\<close>, \<open>pop\<close>); its top is the head of the list here.  The blocks are then
  sorted, adjacent blocks are merged and the sentinel \<open>(la, lb, 0)\<close> is appended.
  \<open>ratio\<close> is \<open>2.0 * matches / (len(a) + len(b))\<close>, and 1.0 for two empty sequences.\<close>

function mb_loop ::
  "'a list \<Rightarrow> 'a list \<Rightarrow> ('a \<rightharpoonup> nat list) \<Rightarrow> (nat \<times> nat \<times> nat \<times> nat) list \<Rightarrow> match list \<Rightarrow> match list"
where
  "mb_loop a b b2j [] matching_blocks = matching_blocks"
| "mb_loop a b b2j ((alo, ahi, blo, bhi) # queue) matching_blocks =
     (case find_longest_match a b b2j alo ahi blo bhi of
        (i, j, k) \<Rightarrow>
          if k \<noteq> 0 then
            mb_loop a b b2j
              ((if i + k < ahi \<and> j + k < bhi then [(i + k, ahi, j + k, bhi)] else [])
               @ (if alo < i \<and> blo < j then [(alo, i, blo, j)] else []) @ queue)
              (matching_blocks @ [(i, j, k)])
          else mb_loop a b b2j queue matching_blocks)"
  by pat_completeness auto
termination
proof (relation "measure (\<lambda>(a, b, b2j, queue, blocks).
          sum_list (map (\<lambda>(alo, ahi, blo, bhi). 2 * (ahi - alo) + 1) queue))", goal_cases)
  case 1
  then show ?case by simp
next
  case (2 a b b2j alo ahi blo bhi queue matching_blocks i jk j k)
  then have "find_longest_match a b b2j alo ahi blo bhi = (i, j, k)" by simp
  from find_longest_match_bounds[OF this] have b: "alo \<le> i" "i + k \<le> max alo ahi"
    by simp_all
  from 2 have k: "0 < k" by simp
  from b k have c: "i + k \<le> ahi" by (cases "alo \<le> ahi") (simp_all add: max_def)
  define P where "P = (i + k < ahi \<and> j + k < bhi)"
  define Q where "Q = (alo < i \<and> blo < j)"
  have m1: "2 * (ahi - (i + k)) + 1 + (2 * (i - alo) + 1) < 2 * (ahi - alo) + 1"
    using k b(1) c by arith
  have m2: "2 * (ahi - (i + k)) + 1 < 2 * (ahi - alo) + 1"
    using k b(1) c by arith
  have m3: "Q \<Longrightarrow> 2 * (i - alo) + 1 < 2 * (ahi - alo) + 1"
    using k c unfolding Q_def by arith
  have ar: "(if P then 2 * (ahi - (i + k)) + 1 else 0) + (if Q then 2 * (i - alo) + 1 else 0)
            < 2 * (ahi - alo) + 1"
    using m1 m2 m3 by (cases P; cases Q) simp_all
  have "sum_list (map (\<lambda>(alo, ahi, blo, bhi). 2 * (ahi - alo) + 1)
          ((if P then [(i + k, ahi, j + k, bhi)] else []) @ (if Q then [(alo, i, blo, j)] else []) @ queue))
        = (if P then 2 * (ahi - (i + k)) + 1 else 0) + (if Q then 2 * (i - alo) + 1 else 0)
          + sum_list (map (\<lambda>(alo, ahi, blo, bhi). 2 * (ahi - alo) + 1) queue)"
    by (cases P; cases Q) simp_all
  with ar show ?case unfolding P_def Q_def by simp
next
  case 3
  then show ?case by simp
qed

fun collapse :: "match \<Rightarrow> match list \<Rightarrow> match list" where
  "collapse (i1, j1, k1) [] = (if k1 \<noteq> 0 then [(i1, j1, k1)] else [])"
| "collapse (i1, j1, k1) ((i2, j2, k2) # rest) =
     (if i1 + k1 = i2 \<and> j1 + k1 = j2 then collapse (i1, j1, k1 + k2) rest
      else (if k1 \<noteq> 0 then [(i1, j1, k1)] else []) @ collapse (i2, j2, k2) rest)"

definition get_matching_blocks :: "'a list \<Rightarrow> 'a list \<Rightarrow> match list" where
  "get_matching_blocks a b =
     collapse (0, 0, 0) (sort (mb_loop a b (chain_b b) [(0, length a, 0, length b)] []))
     @ [(length a, length b, 0)]"

definition calculate_ratio :: "nat \<Rightarrow> nat \<Rightarrow> real" where
  "calculate_ratio matches len = (if len \<noteq> 0 then 2 * real matches / real len else 1)"

definition ratio :: "'a list \<Rightarrow> 'a list \<Rightarrow> real" where
  "ratio a b =
     calculate_ratio (sum_list (map (\<lambda>(i, j, k). k) (get_matching_blocks a b)))
       (length a + length b)"

section \<open>Conflict detector (conflict\_agent.py)\<close>

datatype category =
  SoftwareLicenses | Hardware | Network | Consulting | Training | Maintenance | Renovation
  | Security

definition CATEGORY_KEYWORDS :: "(category \<times> ustr list) list" where
  "CATEGORY_KEYWORDS =
     [(SoftwareLicenses, [u ''licencja'', u ''license'', u ''microsoft'', u ''office'',
                          u ''oprogramowanie'', u ''software'', u ''subskrypcja'']),
      (Hardware, [u ''serwer'', u ''server'', u ''sprz'' @ [281] @ u ''t'', u ''hardware'',
                  u ''komputer'', u ''laptop'', u ''urz'' @ [261] @ u ''dzenia'']),
      (Network, [u ''sieciowe'', u ''network'', u ''switch'', u ''router'', u ''firewall'',
                 u ''wifi'', u ''lan'', u ''wan'']),
      (Consulting, [u ''konsulting'', u ''consulting'', u ''doradztwo'', u ''ekspertyza'',
                    u ''analiza'', u ''audyt'']),
      (Training, [u ''szkolenie'', u ''training'', u ''kurs'', u ''certyfikacja'',
                  u ''edukacja'']),
      (Maintenance, [u ''utrzymanie'', u ''maintenance'', u ''serwis'', u ''support'',
                     u ''wsparcie'']),
      (Renovation, [u ''remont'', u ''renovation'', u ''modernizacja'', u ''adaptacja'']),
      (Security, [u ''bezpiecze'' @ [324] @ u ''stwo'', u ''security'', u ''cyber'',
                  u ''ochrona'', u ''monitoring''])]"

definition SIMILARITY_THRESHOLD :: real where
  "SIMILARITY_THRESHOLD = 0.6"

text \<open>
  \<open>_normalize_content\<close>: lower case; every character that is neither \<open>\w\<close> nor \<open>\s\<close>
  becomes a space; every run of white space becomes one space; \<open>strip\<close>.
\<close>

function collapse_ws :: "unicode \<Rightarrow> ustr \<Rightarrow> ustr" where
  "collapse_ws U [] = []"
| "collapse_ws U (c # cs) =
     (if is_space U c then 32 # collapse_ws U (dropWhile (is_space U) cs)
      else c # collapse_ws U cs)"
  by pat_completeness auto
termination
  by (relation "measure (\<lambda>(U, s). length s)")
     (auto simp: length_dropWhile_le less_Suc_eq_le)

definition py_strip :: "unicode \<Rightarrow> ustr \<Rightarrow> ustr" where
  "py_strip U s = rev (dropWhile (is_space U) (rev (dropWhile (is_space U) s)))"

definition normalize_content :: "unicode \<Rightarrow> entry \<Rightarrow> ustr" where
  "normalize_content U e =
     (let content = str_lower U (join_space [or_empty (nazwa_zadania e),
                                             or_empty (opis_projektu e),
                                             or_empty (szczegolowe_uzasadnienie e)]);
          content = map (\<lambda>c. if is_word U c \<or> is_space U c then c else 32) content
      in py_strip U (collapse_ws U content))"

definition categories_of :: "ustr \<Rightarrow> category set" where
  "categories_of content =
     set (map fst (filter (\<lambda>(category, keywords). list_ex (\<lambda>kw. py_in kw content) keywords)
                     CATEGORY_KEYWORDS))"

definition category_similarity :: "ustr \<Rightarrow> ustr \<Rightarrow> real" where
  "category_similarity content_a content_b =
     (let categories_a = categories_of content_a;
          categories_b = categories_of content_b
      in if categories_a = {} \<or> categories_b = {} then 0
         else (let intersection = card (categories_a \<inter> categories_b);
                   union = card (categories_a \<union> categories_b)
               in if union > 0 then real intersection / real union else 0))"

definition calculate_similarity :: "unicode \<Rightarrow> entry \<Rightarrow> entry \<Rightarrow> real" where
  "calculate_similarity U entry_a entry_b =
     (let content_a = normalize_content U entry_a;
          content_b = normalize_content U entry_b;
          string_sim = ratio content_a content_b;
          category_sim = category_similarity content_a content_b;
          paragraf_sim = (if paragraf entry_a = paragraf entry_b then 1 else 0)
      in string_sim * 0.4 + category_sim * 0.4 + paragraf_sim * 0.2)"

text \<open>\<open>round(x, 2)\<close> in exact arithmetic: to the nearest hundredth, ties to the even
  neighbour.\<close>

definition round_half_even :: "real \<Rightarrow> int" where
  "round_half_even x =
     (let f = \<lfloor>x\<rfloor>; d = x - of_int f
      in if d < 1 / 2 then f else if d > 1 / 2 then f + 1 else if even f then f else f + 1)"

definition py_round2 :: "real \<Rightarrow> real" where
  "py_round2 x = of_int (round_half_even (x * 100)) / 100"

text \<open>\<open>x or y\<close> on optional strings, the \<open>department\<close> relationship of an entry, and
  \<open>str(n)\<close> for an integer.\<close>

definition or_str :: "ustr option \<Rightarrow> ustr option \<Rightarrow> ustr option" where
  "or_str x y = (if truthy_str x then x else y)"

definition entry_department :: "store \<Rightarrow> entry \<Rightarrow> department option" where
  "entry_department db e =
     (case department_id e of None \<Rightarrow> None
      | Some d \<Rightarrow> find (\<lambda>x. dept_id x = d) (departments db))"

definition department_code :: "store \<Rightarrow> entry \<Rightarrow> ustr" where
  "department_code db e =
     (case entry_department db e of None \<Rightarrow> u ''N/A'' | Some d \<Rightarrow> dept_code d)"

fun str_nat :: "nat \<Rightarrow> ustr" where
  "str_nat n = (if n < 10 then [48 + int n] else str_nat (n div 10) @ [48 + int (n mod 10)])"

declare str_nat.simps [simp del]

definition str_int :: "int \<Rightarrow> ustr" where
  "str_int n = (if n < 0 then 45 # str_nat (nat (- n)) else str_nat (nat n))"

text \<open>The record that \<open>_create_conflict\<close> returns, without the two texts
  (\<open>suggested_action\<close>, \<open>message\<close>) that only rephrase the other fields.\<close>

record conflict_report =
  cr_entry_a_id :: int
  cr_entry_a_name :: ustr
  cr_entry_a_department :: ustr
  cr_entry_a_amount :: real
  cr_entry_b_id :: int
  cr_entry_b_name :: ustr
  cr_entry_b_department :: ustr
  cr_entry_b_amount :: real
  cr_similarity_score :: real
  cr_conflict_type :: ustr
  cr_potential_savings :: real
  cr_combined_amount :: real

definition create_conflict :: "store \<Rightarrow> entry \<Rightarrow> entry \<Rightarrow> real \<Rightarrow> int \<Rightarrow> conflict_report" where
  "create_conflict db entry_a entry_b similarity year =
     (let amount_a = or0 (kwota year entry_a);
          amount_b = or0 (kwota year entry_b);
          ctype = (if similarity \<ge> 0.85 then u ''duplicate''
                   else if similarity \<ge> 0.7 then u ''overlap''
                   else u ''semantic_similar'');
          potential_savings = (amount_a + amount_b) * 0.15
      in \<lparr>cr_entry_a_id = entry_id entry_a,
          cr_entry_a_name =
            take 100 (or_empty (or_str (or_str (nazwa_zadania entry_a) (opis_projektu entry_a))
                                  (Some []))),
          cr_entry_a_department = department_code db entry_a,
          cr_entry_a_amount = amount_a,
          cr_entry_b_id = entry_id entry_b,
          cr_entry_b_name =
            take 100 (or_empty (or_str (or_str (nazwa_zadania entry_b) (opis_projektu entry_b))
                                  (Some []))),
          cr_entry_b_department = department_code db entry_b,
          cr_entry_b_amount = amount_b,
          cr_similarity_score = py_round2 similarity,
          cr_conflict_type = ctype,
          cr_potential_savings = py_round2 potential_savings,
          cr_combined_amount = amount_a + amount_b\<rparr>)"

text \<open>\<open>_save_conflict\<close>: update the stored conflict of the pair, in either order, or add
  a new pending one.  A new row gets the next free integer key.\<close>

definition next_conflict_id :: "store \<Rightarrow> int" where
  "next_conflict_id db = fold max (map conflict_id (conflicts db)) 0 + 1"

definition save_conflict :: "int \<Rightarrow> int \<Rightarrow> real \<Rightarrow> ustr \<Rightarrow> store \<Rightarrow> store" where
  "save_conflict a_id b_id similarity ctype db =
     (case find (\<lambda>c. (entry_a_id c = Some a_id \<and> entry_b_id c = Some b_id)
                      \<or> (entry_a_id c = Some b_id \<and> entry_b_id c = Some a_id))
                (conflicts db) of
        Some existing \<Rightarrow>
          db\<lparr>conflicts :=
               map (\<lambda>c. if conflict_id c = conflict_id existing
                         then c\<lparr>similarity_score := Some similarity,
                                conflict_type := Some ctype\<rparr>
                         else c) (conflicts db)\<rparr>
      | None \<Rightarrow>
          db\<lparr>conflicts := conflicts db @
               [\<lparr>conflict_id = next_conflict_id db, entry_a_id = Some a_id,
                 entry_b_id = Some b_id, conflict_type = Some ctype,
                 similarity_score = Some similarity,
                 resolution_status = Some (u ''pending''), resolution_notes = None\<rparr>]\<rparr>)"

type_synonym detect_state = "conflict_report list \<times> (int \<times> int) set \<times> store"

fun detect_inner :: "unicode \<Rightarrow> int \<Rightarrow> entry \<Rightarrow> entry list \<Rightarrow> detect_state \<Rightarrow> detect_state" where
  "detect_inner U year entry_a [] st = st"
| "detect_inner U year entry_a (entry_b # rest) (found, processed_pairs, db) =
     (if department_id entry_a = department_id entry_b
      then detect_inner U year entry_a rest (found, processed_pairs, db)
      else
        (let pair_key = (min (entry_id entry_a) (entry_id entry_b),
                         max (entry_id entry_a) (entry_id entry_b))
         in if pair_key \<in> processed_pairs
            then detect_inner U year entry_a rest (found, processed_pairs, db)
            else
              (let similarity = calculate_similarity U entry_a entry_b
               in if similarity \<ge> SIMILARITY_THRESHOLD then
                    (let conflict = create_conflict db entry_a entry_b similarity year
                     in detect_inner U year entry_a rest
                          (found @ [conflict], insert pair_key processed_pairs,
                           save_conflict (entry_id entry_a) (entry_id entry_b) similarity
                             (cr_conflict_type conflict) db))
                  else detect_inner U year entry_a rest
                         (found, insert pair_key processed_pairs, db))))"

fun detect_outer :: "unicode \<Rightarrow> int \<Rightarrow> entry list \<Rightarrow> detect_state \<Rightarrow> detect_state" where
  "detect_outer U year [] st = st"
| "detect_outer U year (entry_a # rest) st =
     detect_outer U year rest (detect_inner U year entry_a rest st)"

definition positive_in :: "int \<Rightarrow> entry \<Rightarrow> bool" where
  "positive_in year e = (case kwota year e of None \<Rightarrow> False | Some v \<Rightarrow> v > 0)"

text \<open>\<open>conflicts.sort(key = similarity_score, reverse=True)\<close> keeps the order of equal
  scores, as \<open>sort_key\<close> on the negated score does.\<close>

definition detect_conflicts :: "unicode \<Rightarrow> store \<Rightarrow> int \<Rightarrow> error + conflict_report list \<times> store" where
  "detect_conflicts U db year =
     (if \<not> valid_year year then Inl AttributeError
      else (case detect_outer U year (filter (positive_in year) (entries db)) ([], {}, db) of
              (found, processed_pairs, db') \<Rightarrow>
                Inr (sort_key (\<lambda>c. - cr_similarity_score c) found, db')))"

datatype resolve_result = ConflictNotFound | NoKeepEntry | Resolved ustr

definition consolidate_year :: "int \<Rightarrow> int \<Rightarrow> int \<Rightarrow> store \<Rightarrow> store" where
  "consolidate_year keep_id remove_id year db =
     (case (get_entry db keep_id, get_entry db remove_id) of
        (Some keep_entry, Some remove_entry) \<Rightarrow>
          (let keep_amount = or0 (kwota year keep_entry);
               remove_amount = or0 (kwota year remove_entry);
               consolidated = (keep_amount + remove_amount) * 0.85
           in put_entry (set_kwota year (Some consolidated) keep_entry) db)
      | _ \<Rightarrow> db)"

definition update_entry :: "int \<Rightarrow> (entry \<Rightarrow> entry) \<Rightarrow> store \<Rightarrow> store" where
  "update_entry i f db = (case get_entry db i of None \<Rightarrow> db | Some e \<Rightarrow> put_entry (f e) db)"

text \<open>
  \<open>resolve_conflict\<close>.  The two rows are read and written through the store by their
  keys, so that the steps act on one row when both keys are the same, as they do on the
  one object the session returns for it.
\<close>

definition resolve_conflict ::
  "store \<Rightarrow> int \<Rightarrow> ustr \<Rightarrow> int option \<Rightarrow> ustr option \<Rightarrow> resolve_result \<times> store" where
  "resolve_conflict db cid resolution keep_entry_id notes =
     (case find (\<lambda>c. conflict_id c = cid) (conflicts db) of
        None \<Rightarrow> (ConflictNotFound, db)
      | Some conflict \<Rightarrow>
          if resolution = u ''consolidate'' \<and> \<not> truthy_int keep_entry_id
          then (NoKeepEntry, db)
          else
            (let db1 =
               (if resolution = u ''consolidate'' then
                  (let keep_id = the keep_entry_id;
                       remove_id = (if keep_entry_id = entry_a_id conflict
                                    then entry_b_id conflict else entry_a_id conflict)
                   in case (get_entry db keep_id, Option.bind remove_id (get_entry db)) of
                        (Some keep_entry, Some remove_entry) \<Rightarrow>
                          (let r = entry_id remove_entry;
                               db = fold (consolidate_year keep_id r)
                                      [2025, 2026, 2027, 2028, 2029] db;
                               db = update_entry keep_id
                                      (\<lambda>e. e\<lparr>uwagi := Some (or_empty (uwagi e)
                                           @ [10] @ u ''[SKONSOLIDOWANO z pozycji ''
                                           @ str_int r @ u '']'')\<rparr>) db;
                               db = update_entry r
                                      (\<lambda>e. e\<lparr>kwota_2025 := Some 0, kwota_2026 := Some 0,
                                              kwota_2027 := Some 0\<rparr>) db
                           in update_entry r
                                (\<lambda>e. e\<lparr>uwagi := Some (or_empty (uwagi e)
                                     @ [10] @ u ''[PRZENIESIONO do pozycji ''
                                     @ str_int keep_id @ u '']'')\<rparr>) db)
                      | _ \<Rightarrow> db)
                else db)
             in (Resolved resolution,
                 db1\<lparr>conflicts :=
                       map (\<lambda>c. if conflict_id c = cid
                                 then c\<lparr>resolution_status := Some (u ''resolved''),
                                        resolution_notes := or_str notes (Some resolution)\<rparr>
                                 else c) (conflicts db1)\<rparr>)))"

section \<open>Gap optimizer (optimization\_agent.py)\<close>

text \<open>The five values of \<open>PriorityLevel\<close> and \<open>PRIORITY_WEIGHTS\<close>; any other string is
  not a \<open>PriorityLevel\<close> (\<open>ValueError\<close> in the source).\<close>

definition OBOWIAZKOWY :: ustr where "OBOWIAZKOWY = u ''obowi'' @ [261] @ u ''zkowy''"
definition WYSOKI :: ustr where "WYSOKI = u ''wysoki''"
definition SREDNI :: ustr where "SREDNI = [347] @ u ''redni''"
definition NISKI :: ustr where "NISKI = u ''niski''"
definition UZNANIOWY :: ustr where "UZNANIOWY = u ''uznaniowy''"

definition PRIORITY_WEIGHTS :: "ustr \<Rightarrow> int option" where
  "PRIORITY_WEIGHTS p =
     (if p = OBOWIAZKOWY then Some 100
      else if p = WYSOKI then Some 75
      else if p = SREDNI then Some 50
      else if p = NISKI then Some 25
      else if p = UZNANIOWY then Some 10
      else None)"

definition PROTECTED_KEYWORDS :: "ustr list" where
  "PROTECTED_KEYWORDS =
     [u ''cyberbezpiecze'' @ [324] @ u ''stwo'', u ''cyber'', u ''security'',
      u ''bezpiecze'' @ [324] @ u ''stwo'', u ''eidas'', u ''rozporz'' @ [261] @ u ''dzenie'',
      u ''ustawa'', u ''prawne'', u ''obligatoryjne'', u ''audit'', u ''audyt'',
      u ''kontrola'', u ''nis2'', u ''dora'']"

definition DEFERRABLE_KEYWORDS :: "ustr list" where
  "DEFERRABLE_KEYWORDS =
     [u ''remont'', u ''renovation'', u ''modernizacja'', u ''szkolenie'', u ''training'',
      u ''nowe'', u ''rozw'' @ [243] @ u ''j'', u ''enhancement'', u ''upgrade'',
      u ''planowane'']"

text \<open>SQL \<open>SUM\<close> skips \<open>NULL\<close> and is \<open>NULL\<close> when no row has a value.\<close>

definition sql_sum :: "real option list \<Rightarrow> real option" where
  "sql_sum xs = (if list_all (\<lambda>x. x = None) xs then None else Some (sum_list (map or0 xs)))"

record gap_analysis =
  gap_year :: int
  gap_global_limit :: real
  gap_current_total :: real
  gap_variance :: real
  gap_is_over_limit :: bool
  gap_over_percentage :: real
  priority_breakdown :: "(ustr \<times> real) list"
  department_breakdown :: "(ustr \<times> real option) list"

datatype gap_result = NoGlobalLimit | Gap gap_analysis

text \<open>\<open>db.query(func.sum(amount_field)).scalar() or 0\<close>: the total of the year.\<close>

definition year_total :: "store \<Rightarrow> int \<Rightarrow> real" where
  "year_total db year = or0 (sql_sum (map (kwota year) (entries db)))"

definition analyze_budget_gap :: "store \<Rightarrow> int \<Rightarrow> error + gap_result" where
  "analyze_budget_gap db year =
     (case find (\<lambda>g. limit_year g = year) (global_limits db) of
        None \<Rightarrow> Inr NoGlobalLimit
      | Some gl \<Rightarrow>
          if \<not> valid_year year then Inl AttributeError
          else
            (let total = year_total db year;
                 var = total - total_limit gl
             in Inr (Gap
                  \<lparr>gap_year = year,
                   gap_global_limit = total_limit gl,
                   gap_current_total = total,
                   gap_variance = var,
                   gap_is_over_limit = (var > 0),
                   gap_over_percentage =
                     (if total_limit gl > 0 then var / total_limit gl * 100 else 0),
                   priority_breakdown =
                     map (\<lambda>p. (p, or0 (sql_sum (map (kwota year)
                                     (filter (\<lambda>e. priority e = Some p) (entries db))))))
                       [OBOWIAZKOWY, WYSOKI, SREDNI, NISKI, UZNANIOWY],
                   department_breakdown =
                     map (\<lambda>d. (dept_code d,
                               sql_sum (map (kwota year)
                                 (filter (\<lambda>e. department_id e = Some (dept_id d)) (entries db)))))
                       (filter (\<lambda>d. list_ex (\<lambda>e. department_id e = Some (dept_id d)) (entries db))
                          (departments db))\<rparr>)))"

definition optimization_content :: "unicode \<Rightarrow> entry \<Rightarrow> ustr" where
  "optimization_content U e =
     str_lower U (join_space [or_empty (nazwa_zadania e), or_empty (opis_projektu e),
                           or_empty (szczegolowe_uzasadnienie e), or_empty (uwagi e)])"

definition contract_signed :: "unicode \<Rightarrow> entry \<Rightarrow> bool" where
  "contract_signed U e =
     (truthy_str (umowy e) \<and> py_in (u ''podpisana'') (str_lower U (or_empty (umowy e))))"

definition stage_in_progress :: "unicode \<Rightarrow> entry \<Rightarrow> bool" where
  "stage_in_progress U e =
     (truthy_str (etap_dzialan e)
      \<and> (py_in (u ''realizacja'') (str_lower U (or_empty (etap_dzialan e)))
         \<or> py_in (u ''w toku'') (str_lower U (or_empty (etap_dzialan e)))))"

definition calculate_deferral_score :: "unicode \<Rightarrow> entry \<Rightarrow> int" where
  "calculate_deferral_score U e =
     (let priority_str = (if truthy_str (priority e) then or_empty (priority e) else SREDNI);
          score = (case PRIORITY_WEIGHTS priority_str of None \<Rightarrow> 50 | Some w \<Rightarrow> 100 - w);
          content = optimization_content U e;
          score = (if list_ex (\<lambda>kw. py_in kw content) PROTECTED_KEYWORDS
                   then score - 30 else score);
          score = (if list_ex (\<lambda>kw. py_in kw content) DEFERRABLE_KEYWORDS
                   then score + 20 else score);
          score = (if contract_signed U e then score - 40 else score);
          score = (if truthy_str (etap_dzialan e) then
                     (if stage_in_progress U e then score - 25
                      else if py_in (u ''planowane'') (str_lower U (or_empty (etap_dzialan e)))
                      then score + 15 else score)
                   else score)
      in max 0 (min 100 score))"

definition is_deferrable :: "unicode \<Rightarrow> entry \<Rightarrow> bool" where
  "is_deferrable U e =
     (if contract_signed U e then False
      else if stage_in_progress U e then False
      else if list_ex (\<lambda>kw. py_in kw (optimization_content U e)) PROTECTED_KEYWORDS then False
      else priority e = Some NISKI \<or> priority e = Some UZNANIOWY)"

datatype cut_action = Defer | Reduce

text \<open>One suggestion, without its \<open>reason\<close> text (which restates the action and the
  rate).\<close>

record suggestion =
  sg_entry_id :: int
  sg_nazwa :: ustr
  sg_department :: ustr
  sg_current_amount :: real
  sg_suggested_amount :: real
  sg_savings :: real
  sg_action :: cut_action
  sg_priority :: ustr
  sg_deferral_score :: int
  sg_is_deferrable :: bool

definition make_suggestion :: "unicode \<Rightarrow> store \<Rightarrow> int \<Rightarrow> entry \<Rightarrow> real \<Rightarrow> suggestion" where
  "make_suggestion U db year e entry_amount =
     (let score = calculate_deferral_score U e;
          deferrable = is_deferrable U e;
          reduction_rate = (if priority e = Some SREDNI \<or> priority e = Some NISKI
                            then 0.3 else 0.2);
          suggested_amount = (if deferrable then 0 else entry_amount * (1 - reduction_rate));
          savings = (if deferrable then entry_amount else entry_amount - suggested_amount)
      in \<lparr>sg_entry_id = entry_id e,
          sg_nazwa = or_empty (or_str (or_str (nazwa_zadania e) (opis_projektu e))
                                 (Some (u ''Brak nazwy''))),
          sg_department = department_code db e,
          sg_current_amount = entry_amount,
          sg_suggested_amount = suggested_amount,
          sg_savings = savings,
          sg_action = (if deferrable then Defer else Reduce),
          sg_priority = (if truthy_str (priority e) then or_empty (priority e) else SREDNI),
          sg_deferral_score = score,
          sg_is_deferrable = deferrable\<rparr>)"

text \<open>The greedy loop over the cuttable entries: \<open>break\<close> once the target is reached,
  \<open>continue\<close> on an amount that is not positive.\<close>

fun cut_loop ::
  "unicode \<Rightarrow> store \<Rightarrow> int \<Rightarrow> real \<Rightarrow> entry list \<Rightarrow> suggestion list \<times> real \<Rightarrow> suggestion list \<times> real"
where
  "cut_loop U db year target [] st = st"
| "cut_loop U db year target (e # rest) (suggestions, cumulative_savings) =
     (if cumulative_savings \<ge> target then (suggestions, cumulative_savings)
      else if or0 (kwota year e) \<le> 0
      then cut_loop U db year target rest (suggestions, cumulative_savings)
      else (let suggestion = make_suggestion U db year e (or0 (kwota year e))
            in cut_loop U db year target rest
                 (suggestions @ [suggestion], cumulative_savings + sg_savings suggestion)))"

record protected_item =
  pi_entry_id :: int
  pi_nazwa :: "ustr option"
  pi_amount :: "real option"

definition get_protected_items :: "store \<Rightarrow> int \<Rightarrow> protected_item list" where
  "get_protected_items db year =
     map (\<lambda>e. \<lparr>pi_entry_id = entry_id e,
                pi_nazwa = or_str (nazwa_zadania e) (opis_projektu e),
                pi_amount = kwota year e\<rparr>)
       (filter (\<lambda>e. is_obligatory e = Some True \<and> positive_in year e) (entries db))"

record cut_plan =
  cp_gap_analysis :: gap_analysis
  cp_target_reduction :: real
  cp_achievable_reduction :: real
  cp_can_meet_target :: bool
  cp_suggestions :: "suggestion list"
  cp_protected_items :: "protected_item list"

datatype cut_result = NoCuts gap_result | Cuts cut_plan

text \<open>
  \<open>generate_cut_suggestions\<close>.  The query orders the cuttable rows by the \<open>priority\<close>
  string, \<open>NULL\<close> first; rows of equal priority are taken in table order here (the
  database does not promise an order among them).  The \<open>summary\<close> text of the result
  is left out.
\<close>

definition cuttable_entries :: "store \<Rightarrow> int \<Rightarrow> entry list" where
  "cuttable_entries db year =
     sort_key priority
       (filter (\<lambda>e. is_obligatory e = Some False \<and> positive_in year e) (entries db))"

definition generate_cut_suggestions :: "unicode \<Rightarrow> store \<Rightarrow> real option \<Rightarrow> int \<Rightarrow> error + cut_result" where
  "generate_cut_suggestions U db target_reduction year =
     (case analyze_budget_gap db year of
        Inl err \<Rightarrow> Inl err
      | Inr NoGlobalLimit \<Rightarrow> Inr (NoCuts NoGlobalLimit)
      | Inr (Gap gap) \<Rightarrow>
          if \<not> gap_is_over_limit gap then Inr (NoCuts (Gap gap))
          else
            (let target = (case target_reduction of
                             None \<Rightarrow> gap_variance gap
                           | Some t \<Rightarrow> if t = 0 then gap_variance gap else t)
             in case cut_loop U db year target (cuttable_entries db year) ([], 0) of
                  (found, cumulative_savings) \<Rightarrow>
                    Inr (Cuts
                      \<lparr>cp_gap_analysis = gap,
                       cp_target_reduction = target,
                       cp_achievable_reduction = cumulative_savings,
                       cp_can_meet_target = (cumulative_savings \<ge> target),
                       cp_suggestions = sort_key (\<lambda>s. - sg_deferral_score s) found,
                       cp_protected_items = get_protected_items db year\<rparr>)))"

text \<open>
  \<open>apply_suggestion\<close>.  \<open>fmt\<close> stands for Python's formatting of an optional float inside
  the remark of a reduction; the model leaves it open.  Deferring an entry whose amount
  is \<open>NULL\<close> adds \<open>None\<close> to a number and raises \<open>TypeError\<close>.  Deferring from 2029 sets
  an attribute \<open>kwota_2030\<close> that is no column, so nothing is stored for it.
\<close>

record apply_report =
  ar_entry_id :: int
  ar_action :: ustr
  ar_old_amount :: "real option"
  ar_new_amount :: real

datatype apply_result = EntryNotFound | Applied apply_report

definition NEEDS_REVISION :: ustr where
  "NEEDS_REVISION = u ''needs_revision''"

definition apply_suggestion ::
  "(real option \<Rightarrow> ustr) \<Rightarrow> store \<Rightarrow> int \<Rightarrow> ustr \<Rightarrow> real option \<Rightarrow> int
     \<Rightarrow> error + apply_result \<times> store" where
  "apply_suggestion fmt db eid action new_amount year =
     (case get_entry db eid of
        None \<Rightarrow> Inr (EntryNotFound, db)
      | Some e \<Rightarrow>
          if \<not> valid_year year then Inl AttributeError
          else
            (let old_amount = kwota year e;
                 report = Applied \<lparr>ar_entry_id = eid, ar_action = action,
                                   ar_old_amount = old_amount,
                                   ar_new_amount = or0 new_amount\<rparr>
             in if action = u ''defer'' then
                  (case old_amount of
                     None \<Rightarrow> Inl TypeError
                   | Some old \<Rightarrow>
                       (let e1 = set_kwota year (Some 0) e;
                            e2 = (if valid_year (year + 1)
                                  then set_kwota (year + 1)
                                         (Some (or0 (kwota (year + 1) e1) + old)) e1
                                  else e1);
                            e3 = e2\<lparr>uwagi := Some (or_empty (uwagi e2) @ [10]
                                        @ u ''[ODROCZONO z '' @ str_int year @ u '']'')\<rparr>
                        in Inr (report, put_entry (e3\<lparr>status := Some NEEDS_REVISION\<rparr>) db)))
                else if action = u ''reduce'' \<and> new_amount \<noteq> None then
                  (let e1 = set_kwota year new_amount e;
                       e2 = e1\<lparr>uwagi := Some (or_empty (uwagi e1) @ [10]
                                   @ u ''[ZREDUKOWANO z '' @ fmt old_amount @ u '' do ''
                                   @ fmt new_amount @ u '']'')\<rparr>
                   in Inr (report, put_entry (e2\<lparr>status := Some NEEDS_REVISION\<rparr>) db))
                else Inr (report, put_entry (e\<lparr>status := Some NEEDS_REVISION\<rparr>) db)))"

section \<open>Forecaster (forecaster\_agent.py)\<close>

text \<open>
  The keyword tables are taken as the source file holds them (some of its Polish letters
  are damaged in the file: \<open>bezpieczestwo\<close>, \<open>sprzt\<close>, and one code point 20598).
  \<open>round(x, n)\<close> is rounding to \<open>n\<close> decimals, ties to even, in exact arithmetic; a
  power with an integer exponent is \<open>py_pow\<close>.
\<close>

definition py_round :: "real \<Rightarrow> nat \<Rightarrow> real" where
  "py_round x n = of_int (round_half_even (x * 10 ^ n)) / 10 ^ n"

definition py_pow :: "real \<Rightarrow> int \<Rightarrow> real" where
  "py_pow g k = (if k \<ge> 0 then g ^ nat k else 1 / g ^ nat (- k))"

definition OTHER :: ustr where "OTHER = u ''other''"
definition CYBERSECURITY :: ustr where "CYBERSECURITY = u ''cybersecurity''"

definition category_keywords :: "(ustr \<times> ustr list) list" where
  "category_keywords =
     [(CYBERSECURITY, [u ''cyber'', u ''bezpieczestwo'', u ''CSIRT'', u ''security'', u ''SOC'']),
      (u ''digital_transformation'',
         [u ''transformacja'', u ''cyfryzacja'', u ''digitalizacja'', u ''eIDAS'']),
      (u ''maintenance'',
         [u ''utrzymanie'', u ''maintenance'', u ''bie'' @ [20598] @ u ''ce'', u ''eksploatacja'']),
      (u ''contracts'', [u ''umowa'', u ''contract'', u ''COI'', u ''realizacja'']),
      (u ''staff'', [u ''wynagrodzenia'', u ''personal'', u ''kadry'', u ''ZUS''])]"

definition growth_factors :: "ustr \<Rightarrow> real option" where
  "growth_factors c =
     (if c = CYBERSECURITY then Some 1.15
      else if c = u ''digital_transformation'' then Some 1.20
      else if c = u ''maintenance'' then Some 1.02
      else if c = u ''contracts'' then Some 1.0
      else if c = u ''staff'' then Some 1.03
      else None)"

definition categorize_entry :: "unicode \<Rightarrow> entry \<Rightarrow> ustr" where
  "categorize_entry U e =
     (let text = str_lower U (join_space [or_empty (nazwa_zadania e), or_empty (opis_projektu e),
                                       or_empty (szczegolowe_uzasadnienie e)])
      in case find (\<lambda>(category, keywords). list_ex (\<lambda>kw. py_in (str_lower U kw) text) keywords)
                category_keywords of
           None \<Rightarrow> OTHER
         | Some (category, keywords) \<Rightarrow> category)"

text \<open>A dictionary with numeric values that is filled by \<open>d[k] = d.get(k, 0) + v\<close>: an
  association list that keeps the order in which the keys first appear.\<close>

fun dict_add :: "ustr \<Rightarrow> real \<Rightarrow> (ustr \<times> real) list \<Rightarrow> (ustr \<times> real) list" where
  "dict_add k v [] = [(k, v)]"
| "dict_add k v ((k', v') # rest) =
     (if k = k' then (k', v' + v) # rest else (k', v') # dict_add k v rest)"

record year_data =
  yd_year :: int
  yd_total :: real
  yd_entries_count :: nat
  yd_by_category :: "(ustr \<times> real) list"
  yd_by_department :: "(ustr \<times> real) list"
  yd_obligatory_total :: real
  yd_entries :: "entry list"

definition department_code_or_unknown :: "store \<Rightarrow> entry \<Rightarrow> ustr" where
  "department_code_or_unknown db e =
     (case entry_department db e of None \<Rightarrow> u ''UNKNOWN'' | Some d \<Rightarrow> dept_code d)"

definition get_year_data :: "unicode \<Rightarrow> store \<Rightarrow> int \<Rightarrow> error + year_data" where
  "get_year_data U db year =
     (if \<not> valid_year year then Inl AttributeError
      else
        (let es = filter (positive_in year) (entries db);
             amount = (\<lambda>e. or0 (kwota year e))
         in Inr \<lparr>yd_year = year,
                 yd_total = sum_list (map amount es),
                 yd_entries_count = length es,
                 yd_by_category =
                   fold (\<lambda>e. dict_add (categorize_entry U e) (amount e)) es
                     (map (\<lambda>(category, keywords). (category, 0)) category_keywords
                      @ [(OTHER, 0)]),
                 yd_by_department =
                   fold (\<lambda>e. dict_add (department_code_or_unknown db e) (amount e)) es [],
                 yd_obligatory_total =
                   sum_list (map amount (filter (\<lambda>e. truthy_bool (is_obligatory e)) es)),
                 yd_entries = es\<rparr>))"

datatype trend = Increasing | Decreasing | Stable | RapidlyIncreasing | Unknown

text \<open>A risk factor is a text about the growth of cybersecurity spending; it is kept as
  the percentage the text shows.\<close>

datatype risk_factor = CyberGrowth real

record forecast_result =
  fr_year :: int
  fr_predicted_total :: real
  fr_confidence :: real
  fr_breakdown :: "(ustr \<times> real) list"
  fr_trend :: trend
  fr_risk_factors :: "risk_factor list"

definition forecast_year :: "year_data \<Rightarrow> int \<Rightarrow> int \<Rightarrow> forecast_result" where
  "forecast_year base_data year offset =
     (let growth = (\<lambda>category. case growth_factors category of None \<Rightarrow> 1.03 | Some g \<Rightarrow> g);
          predicted_by_category =
            map (\<lambda>(category, base_amount). (category, base_amount * py_pow (growth category) offset))
              (yd_by_category base_data);
          risk_factors =
            concat (map (\<lambda>(category, base_amount).
                           if category = CYBERSECURITY \<and> offset \<ge> 2
                           then [CyberGrowth ((py_pow (growth category) offset - 1) * 100)]
                           else [])
                      (yd_by_category base_data));
          total_predicted = sum_list (map snd predicted_by_category);
          confidence = max 0.5 (1 - of_int offset * 0.15);
          trend = (if total_predicted > yd_total base_data * 1.1 then Increasing
                   else if total_predicted < yd_total base_data * 0.9 then Decreasing
                   else Stable);
          total_base = yd_total base_data;
          dept_breakdown =
            map (\<lambda>(dept_code, dept_amount).
                   (dept_code, if total_base > 0 then total_predicted * (dept_amount / total_base)
                               else 0))
              (yd_by_department base_data)
      in \<lparr>fr_year = year, fr_predicted_total = total_predicted, fr_confidence = confidence,
          fr_breakdown = dept_breakdown, fr_trend = trend, fr_risk_factors = risk_factors\<rparr>)"

definition forecast_to_dict :: "forecast_result \<Rightarrow> forecast_result" where
  "forecast_to_dict f =
     f\<lparr>fr_predicted_total := py_round (fr_predicted_total f) 0,
       fr_confidence := py_round (fr_confidence f) 2,
       fr_breakdown := map (\<lambda>(k, v). (k, py_round v 0)) (fr_breakdown f)\<rparr>"

record trend_analysis =
  ta_trend :: trend
  ta_total_growth_percent :: real
  ta_annual_growth_percent :: real
  ta_warning :: bool

definition analyze_trend :: "forecast_result list \<Rightarrow> trend_analysis" where
  "analyze_trend forecasts =
     (if forecasts = [] then
        \<lparr>ta_trend = Unknown, ta_total_growth_percent = 0, ta_annual_growth_percent = 0,
         ta_warning = False\<rparr>
      else
        (let first = fr_predicted_total (hd forecasts);
             last = (if length forecasts > 1 then fr_predicted_total (last forecasts) else first);
             total_growth = (if first > 0 then (last / first - 1) * 100 else 0);
             annual_growth = total_growth / real (length forecasts);
             trend = (if annual_growth > 10 then RapidlyIncreasing
                      else if annual_growth > 5 then Increasing
                      else if annual_growth > - 5 then Stable
                      else Decreasing)
         in \<lparr>ta_trend = trend,
             ta_total_growth_percent = py_round total_growth 1,
             ta_annual_growth_percent = py_round annual_growth 1,
             ta_warning = (trend = RapidlyIncreasing \<or> trend = Decreasing)\<rparr>))"

datatype recommendation = BudgetGrowth | CategoryConcentration | Flexibility

definition generate_recommendations :: "year_data \<Rightarrow> forecast_result list \<Rightarrow> recommendation list" where
  "generate_recommendations base_data forecasts =
     (let cyber_base = (case map_of (yd_by_category base_data) CYBERSECURITY of
                          None \<Rightarrow> 0 | Some v \<Rightarrow> v);
          oblig_ratio = (if yd_total base_data > 0
                         then yd_obligatory_total base_data / yd_total base_data else 0)
      in (if forecasts \<noteq> []
             \<and> fr_predicted_total (last forecasts) > yd_total base_data * 1.5
          then [BudgetGrowth] else [])
         @ (if cyber_base > yd_total base_data * 0.3 then [CategoryConcentration] else [])
         @ (if oblig_ratio > 0.7 then [Flexibility] else []))"

text \<open>The result of \<open>forecast_budget\<close>, without its time stamp.\<close>

record forecast_report =
  fc_base_year :: int
  fc_base_total :: real
  fc_forecasts :: "forecast_result list"
  fc_trend_analysis :: trend_analysis
  fc_recommendations :: "recommendation list"

definition forecast_budget :: "unicode \<Rightarrow> store \<Rightarrow> int \<Rightarrow> int \<Rightarrow> error + forecast_report" where
  "forecast_budget U db base_year forecast_years =
     (case get_year_data U db base_year of
        Inl err \<Rightarrow> Inl err
      | Inr base_data \<Rightarrow>
          (let forecasts = map (\<lambda>offset. forecast_year base_data (base_year + offset) offset)
                             [1..forecast_years]
           in Inr \<lparr>fc_base_year = base_year,
                   fc_base_total = yd_total base_data,
                   fc_forecasts = map forecast_to_dict forecasts,
                   fc_trend_analysis = analyze_trend forecasts,
                   fc_recommendations = generate_recommendations base_data forecasts\<rparr>))"












section \<open>Example data\<close>

text \<open>Entries and stores on which the functions are run in the examples below.\<close>

definition blank_entry :: entry where
  "blank_entry =
     \<lparr>entry_id = 0, paragraf = None, beneficjent_zadaniowy = None, department_id = None,
      opis_projektu = None, nazwa_zadania = None, szczegolowe_uzasadnienie = None,
      kwota_2025 = None, kwota_2026 = None, kwota_2027 = None, kwota_2028 = None,
      kwota_2029 = None, priority = None, status = None, is_obligatory = None,
      etap_dzialan = None, umowy = None, uwagi = None, zadanie_inwestycyjne = None\<rparr>"

definition named_entry :: "int \<Rightarrow> int \<Rightarrow> string \<Rightarrow> real \<Rightarrow> entry" where
  "named_entry i d name amount =
     blank_entry\<lparr>entry_id := i, department_id := Some d, nazwa_zadania := Some (u name),
                 kwota_2025 := Some amount\<rparr>"

definition store_two_servers :: store where
  "store_two_servers =
     \<lparr>entries = [named_entry 1 1 ''serwer'' 100, named_entry 2 2 ''serwer'' 50],
      departments = [], global_limits = [], conflicts = []\<rparr>"

definition server_on_services :: entry where
  "server_on_services =
     blank_entry\<lparr>entry_id := 7, paragraf := Some 4300, department_id := Some 1,
                 nazwa_zadania := Some (u ''Zakup: Serwer i router''),
                 kwota_2025 := Some 100\<rparr>"

definition entry_bad_bz :: entry where
  "entry_bad_bz =
     blank_entry\<lparr>entry_id := 8, paragraf := Some 4300, department_id := Some 1,
                 beneficjent_zadaniowy := Some (u ''abc''),
                 nazwa_zadania := Some (u ''Zakup licencji''), kwota_2025 := Some 100\<rparr>"

definition store_conflict :: store where
  "store_conflict =
     \<lparr>entries = [(named_entry 1 1 ''serwer'' 100)\<lparr>kwota_2028 := Some 10\<rparr>,
                 (named_entry 2 2 ''serwer'' 50)\<lparr>kwota_2028 := Some 30\<rparr>],
      departments = [], global_limits = [],
      conflicts = [\<lparr>conflict_id = 1, entry_a_id = Some 1, entry_b_id = Some 2,
                    conflict_type = Some (u ''duplicate''), similarity_score = Some 1,
                    resolution_status = Some (u ''pending''), resolution_notes = None\<rparr>]\<rparr>"

definition store_over_limit :: store where
  "store_over_limit =
     \<lparr>entries =
        [(named_entry 1 1 ''Audyt systemu'' 60)\<lparr>priority := Some OBOWIAZKOWY,
                                                is_obligatory := Some True\<rparr>,
         (named_entry 2 1 ''Szkolenie'' 50)\<lparr>priority := Some NISKI,
                                            is_obligatory := Some False\<rparr>,
         (named_entry 3 2 ''Serwis'' 40)\<lparr>priority := Some WYSOKI,
                                         is_obligatory := Some False\<rparr>],
      departments = [],
      global_limits = [\<lparr>limit_year = 2025, total_limit = 100\<rparr>],
      conflicts = []\<rparr>"




section \<open>Properties of the compliance checker\<close>

lemma validate_classification_no_corrections:
  "cc_auto_corrections (validate_classification U e) = []"
  by (simp add: validate_classification_def Let_def)

lemma validate_entry_score:
  "compliance_score (validate_entry U e) =
     max 0 (100 - (if truthy_int (paragraf e)
                      \<and> truthy_int (pc_suggested_paragraf (validate_paragraf U e))
                   then 20 else 0)
              - (if cc_auto_corrections (validate_classification U e) \<noteq> [] then 15 else 0)
              - (if validate_amounts e \<noteq> [] then 10 else 0)
              - 5 * int (length (validate_required_fields e)))"
  by (simp add: validate_entry_def Let_def)

lemma validate_entry_is_valid:
  "is_valid (validate_entry U e) =
     (100 - (if truthy_int (paragraf e)
                \<and> truthy_int (pc_suggested_paragraf (validate_paragraf U e))
             then 20 else 0)
        - (if cc_auto_corrections (validate_classification U e) \<noteq> [] then 15 else 0)
        - (if validate_amounts e \<noteq> [] then 10 else 0)
        - 5 * int (length (validate_required_fields e)) \<ge> 70)"
  by (simp add: validate_entry_def Let_def)

lemma validate_entry_warnings:
  "warnings (validate_entry U e) =
     (if truthy_int (paragraf e) then pc_warnings (validate_paragraf U e) else [])
     @ cc_warnings (validate_classification U e) @ validate_amounts e
     @ validate_required_fields e"
  by (simp add: validate_entry_def Let_def)

lemma validate_entry_suggested:
  "suggested_paragraf (validate_entry U e) =
     (if truthy_int (paragraf e) \<and> truthy_int (pc_suggested_paragraf (validate_paragraf U e))
      then pc_suggested_paragraf (validate_paragraf U e) else None)"
  by (simp add: validate_entry_def Let_def)

text \<open>
  Claim C2.  For every budget entry, \<open>validate_entry\<close> returns a compliance score between
  0 and 100, and the returned \<open>is_valid\<close> flag is true exactly when that score is at
  least 70.  (The flag is computed before the score is floored at 0; the floor cannot
  change the comparison with 70.)
\<close>

theorem validate_entry_score_range:
  "0 \<le> compliance_score (validate_entry U e)
   \<and> compliance_score (validate_entry U e) \<le> 100
   \<and> (is_valid (validate_entry U e) \<longleftrightarrow> compliance_score (validate_entry U e) \<ge> 70)"
  unfolding validate_entry_score validate_entry_is_valid by (auto simp: max_def)


lemma validate_required_fields_length: "length (validate_required_fields e) \<le> 3"
  by (simp add: validate_required_fields_def Let_def)

lemma truthy_int_Some: "truthy_int (Some n) = (n \<noteq> 0)"
  by (simp add: truthy_int_def)

lemma current_code_nonzero: "PARAGRAF_CLASSIFICATIONS p = Some g \<Longrightarrow> p \<noteq> 0"
  by (auto simp: PARAGRAF_CLASSIFICATIONS_def)

lemma first_keyword_Some:
  "list_ex (\<lambda>kw. py_in kw content) kws \<Longrightarrow>
   \<exists>kw. first_keyword kws content = Some kw \<and> kw \<in> set kws \<and> py_in kw content"
  unfolding first_keyword_def list_ex_iff
  by (metis find_None_iff find_Some_iff nth_mem not_Some_eq)

lemma validate_paragraf_current:
  assumes "paragraf e = Some p" and "PARAGRAF_CLASSIFICATIONS p = Some Current"
    and "first_keyword INVESTMENT_KEYWORDS (compliance_content U e) = Some kw"
  shows "validate_paragraf U e =
           \<lparr>pc_warnings = [InvestmentKeywordWarning kw p], pc_suggested_paragraf = Some 6060,
            pc_reason = Some kw\<rparr>"
  using assms current_code_nonzero[OF assms(2)] by (simp add: validate_paragraf_def Let_def)

text \<open>
  Claim C6.  For every entry whose paragraph code is known and tagged "current" and whose
  concatenated (lower-cased) text fields contain at least one investment keyword,
  \<open>validate_entry\<close> emits the compliance warning of the paragraph check (one warning, for
  the first keyword found), sets \<open>suggested_paragraf\<close> to 6060, and takes exactly 20 off
  the score for this check, however many keywords match: the score is 100 - 20, less 10
  if an amount warning fired, less 5 for each required-field warning.
\<close>

theorem current_paragraf_investment_keyword:
  assumes "paragraf e = Some p" and "PARAGRAF_CLASSIFICATIONS p = Some Current"
    and "list_ex (\<lambda>kw. py_in kw (compliance_content U e)) INVESTMENT_KEYWORDS"
  shows "suggested_paragraf (validate_entry U e) = Some 6060
    \<and> (\<exists>kw. kw \<in> set INVESTMENT_KEYWORDS \<and> py_in kw (compliance_content U e)
          \<and> pc_warnings (validate_paragraf U e) = [InvestmentKeywordWarning kw p]
          \<and> InvestmentKeywordWarning kw p \<in> set (warnings (validate_entry U e)))
    \<and> compliance_score (validate_entry U e)
        = 100 - 20 - (if validate_amounts e \<noteq> [] then 10 else 0)
          - 5 * int (length (validate_required_fields e))"
proof -
  from first_keyword_Some[OF assms(3)] obtain kw where
    kw: "first_keyword INVESTMENT_KEYWORDS (compliance_content U e) = Some kw"
      "kw \<in> set INVESTMENT_KEYWORDS" "py_in kw (compliance_content U e)" by blast
  note vp = validate_paragraf_current[OF assms(1,2) kw(1)]
  have t: "truthy_int (paragraf e)"
    using current_code_nonzero[OF assms(2)] unfolding assms(1) by (simp add: truthy_int_Some)
  have s: "suggested_paragraf (validate_entry U e) = Some 6060"
    by (simp add: validate_entry_suggested vp t truthy_int_Some)
  have w: "InvestmentKeywordWarning kw p \<in> set (warnings (validate_entry U e))"
    by (simp add: validate_entry_warnings vp t)
  have sc: "compliance_score (validate_entry U e)
        = 100 - 20 - (if validate_amounts e \<noteq> [] then 10 else 0)
          - 5 * int (length (validate_required_fields e))"
    using validate_required_fields_length[of e]
    by (simp add: validate_entry_score vp t truthy_int_Some validate_classification_no_corrections)
  from s w sc kw(2,3) vp show ?thesis by auto
qed

lemma server_on_services_keywords: "list_ex (\<lambda>kw. py_in kw (compliance_content ascii_tables server_on_services)) INVESTMENT_KEYWORDS"
  by code_simp
lemma server_on_services_two_keywords: "length (filter (\<lambda>kw. py_in kw (compliance_content ascii_tables server_on_services)) INVESTMENT_KEYWORDS) = 2"
  by code_simp
lemma server_on_services_clean: "validate_amounts server_on_services = [] \<and> validate_required_fields server_on_services = []"
  by code_simp
lemma services_paragraf_current: "PARAGRAF_CLASSIFICATIONS 4300 = Some Current" by code_simp

theorem current_paragraf_investment_keyword_witness:
  "suggested_paragraf (validate_entry ascii_tables server_on_services) = Some 6060
   \<and> compliance_score (validate_entry ascii_tables server_on_services) = 80
   \<and> length (filter (\<lambda>kw. py_in kw (compliance_content ascii_tables server_on_services)) INVESTMENT_KEYWORDS) = 2"
  using current_paragraf_investment_keyword[where e = server_on_services and p = 4300 and U = ascii_tables,
      OF _ services_paragraf_current server_on_services_keywords] server_on_services_two_keywords server_on_services_clean
  by (simp add: server_on_services_def)

text \<open>
  Claim C7, as stated, fails.  The entry below has paragraph 4300 and the task-beneficiary
  code \<open>abc\<close>; the format warning is emitted, but the score stays 100, the same as
  without any code: \<open>_validate_classification\<close> never records an auto-correction, and
  the deduction of 15 is tied to a recorded auto-correction.
\<close>

theorem bz_warning_without_deduction:
  "BzFormatWarning (u ''abc'') \<in> set (warnings (validate_entry ascii_tables entry_bad_bz))
   \<and> compliance_score (validate_entry ascii_tables entry_bad_bz) = 100
   \<and> compliance_score (validate_entry ascii_tables (entry_bad_bz\<lparr>beneficjent_zadaniowy := None\<rparr>)) = 100"
  by code_simp

lemma bz_examples:
  "bz_pattern_match ascii_tables (u ''16.1.2.1'')" "bz_pattern_match ascii_tables (u ''16.1.2.1.'')"
  "\<not> bz_pattern_match ascii_tables (u ''16.1.2'')" "\<not> bz_pattern_match ascii_tables (u ''abc'')" "\<not> bz_pattern_match ascii_tables (u ''0'')"
  "\<not> bz_pattern_match ascii_tables (u ''1.2.3.4.5'')"
  by code_simp+

text \<open>
  Claim C7, amended.  For every entry that has a paragraph code (not null, not 0) and a
  non-empty task-beneficiary code that does not match the four-segment dotted-numeric
  pattern and is not a tolerated sentinel value (the code \<open>0\<close>, or a code whose lower
  case is \<open>nd\<close>, \<open>n/d\<close>, \<open>nan\<close> or empty), \<open>validate_entry\<close> emits the format warning,
  and the check leaves the compliance score as it is without the code.
\<close>

theorem bz_format_warning_only:
  assumes "truthy_int (paragraf e)" and "beneficjent_zadaniowy e = Some bz" and "bz \<noteq> []"
    and "\<not> bz_pattern_match U bz" and "bz \<noteq> u ''0''"
    and "str_lower U bz \<notin> {u ''nd'', u ''n/d'', u ''nan'', []}"
  shows "BzFormatWarning bz \<in> set (warnings (validate_entry U e))
    \<and> compliance_score (validate_entry U e)
        = compliance_score (validate_entry U (e\<lparr>beneficjent_zadaniowy := None\<rparr>))"
proof -
  have "cc_warnings (validate_classification U e) = [BzFormatWarning bz]"
    using assms by (auto simp: validate_classification_def truthy_str_def or_empty_def Let_def)
  then have w: "BzFormatWarning bz \<in> set (warnings (validate_entry U e))"
    by (simp add: validate_entry_warnings)
  have cc: "compliance_content U (e\<lparr>beneficjent_zadaniowy := None\<rparr>) = compliance_content U e"
    by (simp add: compliance_content_def)
  have "validate_paragraf U (e\<lparr>beneficjent_zadaniowy := None\<rparr>) = validate_paragraf U e"
    unfolding validate_paragraf_def cc by simp
  moreover have "validate_amounts (e\<lparr>beneficjent_zadaniowy := None\<rparr>) = validate_amounts e"
    by (simp add: validate_amounts_def amounts_of_def)
  moreover have "validate_required_fields (e\<lparr>beneficjent_zadaniowy := None\<rparr>) = validate_required_fields e"
    by (simp add: validate_required_fields_def)
  ultimately have "compliance_score (validate_entry U e)
        = compliance_score (validate_entry U (e\<lparr>beneficjent_zadaniowy := None\<rparr>))"
    by (simp add: validate_entry_score validate_classification_no_corrections)
  with w show ?thesis by simp
qed

theorem bz_format_warning_only_witness:
  "BzFormatWarning (u ''16-1-2'') \<in> set (warnings (validate_entry ascii_tables (entry_bad_bz\<lparr>beneficjent_zadaniowy := Some (u ''16-1-2'')\<rparr>)))"
proof -
  have a: "\<not> bz_pattern_match ascii_tables (u ''16-1-2'')" by code_simp
  have b: "u ''16-1-2'' \<noteq> []" "u ''16-1-2'' \<noteq> u ''0''" by code_simp+
  have c: "str_lower ascii_tables (u ''16-1-2'') \<notin> {u ''nd'', u ''n/d'', u ''nan'', []}"
    by code_simp
  have d: "truthy_int (paragraf (entry_bad_bz\<lparr>beneficjent_zadaniowy := Some (u ''16-1-2'')\<rparr>))"
    by (simp add: entry_bad_bz_def truthy_int_def)
  from bz_format_warning_only[OF d _ b(1) a b(2) c] show ?thesis by simp
qed

section \<open>Properties of the sequence matcher\<close>

text \<open>The index \<open>b2j\<close>: every list is increasing, holds positions of its key only, and a
  key that kept its list has all its positions in it.\<close>

lemma b2j_get_upd:
  "b2j_get (m(y \<mapsto> v)) x = (if x = y then v else b2j_get m x)"
  by (simp add: b2j_get_def)

lemma chain_b_loop_set:
  "set (b2j_get (chain_b_loop m i b) x)
     = set (b2j_get m x) \<union> {j. i \<le> j \<and> j < i + length b \<and> b ! (j - i) = x}"
proof (induction b arbitrary: m i)
  case Nil
  then show ?case by auto
next
  case (Cons e b)
  let ?m = "m(e \<mapsto> (case m e of None \<Rightarrow> [] | Some idxs \<Rightarrow> idxs) @ [i])"
  let ?A = "{j. Suc i \<le> j \<and> j < Suc i + length b \<and> b ! (j - Suc i) = x}"
  let ?B = "{j. i \<le> j \<and> j < i + length (e # b) \<and> (e # b) ! (j - i) = x}"
  have a: "set (b2j_get ?m x) = set (b2j_get m x) \<union> (if x = e then {i} else {})"
    by (auto simp: b2j_get_def split: option.splits)
  have b: "(if x = e then {i} else {}) \<union> ?A = ?B"
  proof (intro set_eqI iffI)
    fix j assume "j \<in> (if x = e then {i} else {}) \<union> ?A"
    then show "j \<in> ?B" by (auto simp: nth_Cons' Suc_diff_le split: if_splits)
  next
    fix j assume j: "j \<in> ?B"
    show "j \<in> (if x = e then {i} else {}) \<union> ?A"
    proof (cases "j = i")
      case True
      with j show ?thesis by auto
    next
      case False
      with j have "Suc i \<le> j" by simp
      moreover from this have "j - i = Suc (j - Suc i)" by simp
      ultimately show ?thesis using j by auto
    qed
  qed
  have "set (b2j_get (chain_b_loop m i (e # b)) x) = set (b2j_get (chain_b_loop ?m (Suc i) b) x)"
    by simp
  also have "\<dots> = set (b2j_get ?m x) \<union> ?A" by (rule Cons.IH)
  also have "\<dots> = set (b2j_get m x) \<union> ((if x = e then {i} else {}) \<union> ?A)"
    unfolding a by (rule Un_assoc)
  also have "\<dots> = set (b2j_get m x) \<union> ?B" unfolding b ..
  finally show ?case .
qed

lemma chain_b_loop_sorted:
  "sorted (b2j_get m x) \<Longrightarrow> (\<And>j. j \<in> set (b2j_get m x) \<Longrightarrow> j < i)
     \<Longrightarrow> sorted (b2j_get (chain_b_loop m i b) x)"
proof (induction b arbitrary: m i)
  case Nil
  then show ?case by simp
next
  case (Cons e b)
  let ?m = "m(e \<mapsto> (case m e of None \<Rightarrow> [] | Some idxs \<Rightarrow> idxs) @ [i])"
  have s: "sorted (b2j_get ?m x)"
    using Cons.prems by (auto simp: b2j_get_def sorted_append less_imp_le split: option.splits)
  have l: "\<And>j. j \<in> set (b2j_get ?m x) \<Longrightarrow> j < Suc i"
    using Cons.prems(2) by (auto simp: b2j_get_def less_Suc_eq split: option.splits if_splits)
  have "sorted (b2j_get (chain_b_loop ?m (Suc i) b) x)"
    by (rule Cons.IH[OF s]) (rule l)
  then show ?case by simp
qed

lemma b2j_get_empty: "b2j_get Map.empty x = []"
  by (simp add: b2j_get_def)

lemma chain_b_get_cases:
  "b2j_get (chain_b b) x = [] \<or> b2j_get (chain_b b) x = b2j_get (chain_b_loop Map.empty 0 b) x"
  by (auto simp: chain_b_def b2j_get_def Let_def split: option.splits)

lemma chain_b_sorted: "sorted (b2j_get (chain_b b) x)"
proof -
  have "sorted (b2j_get (chain_b_loop Map.empty 0 b) x)"
    by (rule chain_b_loop_sorted) (simp_all add: b2j_get_empty)
  with chain_b_get_cases[of b x] show ?thesis by auto
qed

lemma chain_b_mem:
  assumes "j \<in> set (b2j_get (chain_b b) x)"
  shows "j < length b \<and> b ! j = x"
proof -
  from assms chain_b_get_cases[of b x]
  have "j \<in> set (b2j_get (chain_b_loop Map.empty 0 b) x)" by auto
  then show ?thesis by (simp add: chain_b_loop_set b2j_get_empty)
qed

lemma chain_b_live:
  assumes "i < length b" and "b2j_get (chain_b b) (b ! i) \<noteq> []"
  shows "i \<in> set (b2j_get (chain_b b) (b ! i))"
proof -
  from assms(2) chain_b_get_cases[of b "b ! i"]
  have "b2j_get (chain_b b) (b ! i) = b2j_get (chain_b_loop Map.empty 0 b) (b ! i)" by auto
  then show ?thesis using assms(1) by (simp add: chain_b_loop_set b2j_get_empty)
qed


text \<open>Matching a sequence against itself.  An element is live when it kept its entry
  in \<open>b2j\<close>; \<open>live_run s i\<close> is the length of the run of live elements that ends at
  position \<open>i\<close>.  While \<open>find_longest_match\<close> scans the rows, the best block stays on
  the diagonal: a longer block off the diagonal would have been found on the diagonal
  first.\<close>

definition live :: "'a list \<Rightarrow> 'a \<Rightarrow> bool" where
  "live s x = (b2j_get (chain_b s) x \<noteq> [])"

fun live_run :: "'a list \<Rightarrow> nat \<Rightarrow> nat" where
  "live_run s 0 = (if live s (s ! 0) then 1 else 0)"
| "live_run s (Suc i) = (if live s (s ! Suc i) then live_run s i + 1 else 0)"

definition run_before :: "'a list \<Rightarrow> nat \<Rightarrow> nat" where
  "run_before s j = (if j = 0 then 0 else live_run s (j - 1))"

lemma live_run_eq: "live_run s j = (if live s (s ! j) then run_before s j + 1 else 0)"
  by (cases j) (simp_all add: run_before_def)

lemma run_before_Suc: "run_before s (Suc j) = live_run s j"
  by (simp add: run_before_def)

definition row_inv :: "'a list \<Rightarrow> nat \<Rightarrow> (nat \<rightharpoonup> nat) \<Rightarrow> bool" where
  "row_inv s i j2len =
     ((\<forall>j. j2len_prev j2len j \<le> run_before s i \<and> j2len_prev j2len j \<le> run_before s j)
      \<and> j2len_prev j2len i = run_before s i)"

lemma flm_inner_map:
  "(\<And>j. j \<in> set js \<Longrightarrow> j < n) \<Longrightarrow>
   fst (flm_inner 0 n i j2len js (new, best))
     = (\<lambda>j. if j \<in> set js then Some (j2len_prev j2len j + 1) else new j)"
proof (induction js arbitrary: new best)
  case Nil
  then show ?case by simp
next
  case (Cons j js)
  obtain bi bj bs where best: "best = (bi, bj, bs)" by (cases best) auto
  let ?k = "j2len_prev j2len j + 1"
  let ?best = "if ?k > bs then (i + 1 - ?k, j + 1 - ?k, ?k) else (bi, bj, bs)"
  have jn: "j < n" using Cons.prems by simp
  have step: "flm_inner 0 n i j2len (j # js) (new, bi, bj, bs)
              = flm_inner 0 n i j2len js (new(j \<mapsto> ?k), ?best)"
    using jn by (simp add: Let_def split del: if_split cong: if_cong)
  have "fst (flm_inner 0 n i j2len js (new(j \<mapsto> ?k), ?best))
        = (\<lambda>j'. if j' \<in> set js then Some (j2len_prev j2len j' + 1) else (new(j \<mapsto> ?k)) j')"
    by (rule Cons.IH) (use Cons.prems in simp)
  then show ?case unfolding best step by (auto simp: fun_eq_iff)
qed

lemma flm_inner_diag:
  assumes "sorted js" and "\<And>j. j \<in> set js \<Longrightarrow> j < n \<and> live s (s ! j)" and "live s (s ! i)"
    and "row_inv s i j2len" and "bi = bj" and "\<And>j. j < i \<Longrightarrow> live_run s j \<le> bs"
    and "i \<in> set js \<or> live_run s i \<le> bs"
    and "snd (flm_inner 0 n i j2len js (new, bi, bj, bs)) = (bi', bj', bs')"
  shows "bi' = bj' \<and> (\<forall>j\<le>i. live_run s j \<le> bs')"
  using assms(1,2,5-8)
proof (induction js arbitrary: new bi bj bs)
  case Nil
  then show ?case by (auto simp: le_less)
next
  case (Cons j js)
  let ?k = "j2len_prev j2len j + 1"
  let ?best = "if ?k > bs then (i + 1 - ?k, j + 1 - ?k, ?k) else (bi, bj, bs)"
  have jn: "j < n" and lj: "live s (s ! j)" using Cons.prems(2) by simp_all
  have step: "flm_inner 0 n i j2len (j # js) (new, bi, bj, bs)
              = flm_inner 0 n i j2len js (new(j \<mapsto> ?k), ?best)"
    using jn by (simp add: Let_def split del: if_split cong: if_cong)
  have kj: "?k \<le> live_run s j"
    using assms(4) lj by (simp add: row_inv_def live_run_eq)
  have ki: "?k \<le> live_run s i"
    using assms(4) assms(3) by (simp add: row_inv_def live_run_eq)
  have kii: "j = i \<Longrightarrow> ?k = live_run s i"
    using assms(4) assms(3) by (simp add: row_inv_def live_run_eq)
  have sorted_tl: "sorted js" using Cons.prems(1) by simp
  have tl_mem: "\<And>j. j \<in> set js \<Longrightarrow> j < n \<and> live s (s ! j)" using Cons.prems(2) by simp
  show ?case
  proof (cases "?k > bs")
    case True
    have ji: "j = i"
    proof (rule ccontr)
      assume ne: "j \<noteq> i"
      show False
      proof (cases "j < i")
        case True
        with Cons.prems(4)[of j] kj \<open>?k > bs\<close> show False by simp
      next
        case False
        with ne have gt: "i < j" by simp
        have "i \<notin> set (j # js)" using Cons.prems(1) gt by auto
        with Cons.prems(5) have "live_run s i \<le> bs" by simp
        with ki \<open>?k > bs\<close> show False by simp
      qed
    qed
    have r: "snd (flm_inner 0 n i j2len js (new(j \<mapsto> ?k), i + 1 - ?k, i + 1 - ?k, ?k))
             = (bi', bj', bs')"
      using Cons.prems(6) True ji unfolding step by simp
    have a4: "\<And>j'. j' < i \<Longrightarrow> live_run s j' \<le> ?k"
      using Cons.prems(4) True by (meson le_trans less_imp_le)
    have a5: "i \<in> set js \<or> live_run s i \<le> ?k" using kii[OF ji] by simp
    from Cons.IH[OF sorted_tl tl_mem refl a4 a5 r] show ?thesis by simp
  next
    case False
    have r: "snd (flm_inner 0 n i j2len js (new(j \<mapsto> ?k), bi, bj, bs)) = (bi', bj', bs')"
      using Cons.prems(6) False unfolding step by simp
    have a5: "i \<in> set js \<or> live_run s i \<le> bs"
    proof (cases "j = i")
      case True
      with kii False show ?thesis by simp
    next
      case False
      with Cons.prems(5) show ?thesis by auto
    qed
    from Cons.IH[OF sorted_tl tl_mem Cons.prems(3) Cons.prems(4) a5 r] show ?thesis by simp
  qed
qed


lemma row_inv_next:
  assumes "i < length s" and "row_inv s i j2len"
  shows "row_inv s (Suc i)
           (\<lambda>j. if j \<in> set (b2j_get (chain_b s) (s ! i))
                then Some (j2len_prev j2len j + 1) else None)"
proof -
  let ?js = "b2j_get (chain_b s) (s ! i)"
  let ?new = "\<lambda>j. if j \<in> set ?js then Some (j2len_prev j2len j + 1) else None"
  have mem: "\<And>j. j \<in> set ?js \<Longrightarrow> live s (s ! j) \<and> live s (s ! i)"
  proof -
    fix j assume j: "j \<in> set ?js"
    then have "s ! j = s ! i" using chain_b_mem by fastforce
    moreover from j have "live s (s ! i)" by (auto simp: live_def)
    ultimately show "live s (s ! j) \<and> live s (s ! i)" by simp
  qed
  have bound: "j2len_prev ?new j \<le> live_run s i \<and> j2len_prev ?new j \<le> run_before s j" for j
  proof (cases j)
    case 0
    then show ?thesis by (simp add: j2len_prev_def)
  next
    case (Suc j0)
    show ?thesis
    proof (cases "j0 \<in> set ?js")
      case True
      from mem[OF True] assms(2) show ?thesis
        using True by (simp add: Suc j2len_prev_def[of ?new] run_before_Suc live_run_eq row_inv_def)
    next
      case False
      then show ?thesis by (simp add: Suc j2len_prev_def[of ?new])
    qed
  qed
  have diag: "j2len_prev ?new (Suc i) = live_run s i"
  proof (cases "i \<in> set ?js")
    case True
    from mem[OF True] assms(2) show ?thesis
      using True by (simp add: j2len_prev_def[of ?new] live_run_eq row_inv_def)
  next
    case False
    with chain_b_live[OF assms(1)] have "\<not> live s (s ! i)" by (auto simp: live_def)
    with False show ?thesis by (simp add: j2len_prev_def[of ?new] live_run_eq)
  qed
  show ?thesis unfolding row_inv_def run_before_Suc using bound diag by blast
qed

lemma flm_outer_diag:
  assumes "row_inv s i0 j2len" and "\<And>j. j < i0 \<Longrightarrow> live_run s j \<le> bs" and "i0 \<le> length s"
  shows "\<exists>d k. snd (flm_outer s (chain_b s) 0 (length s) [i0..<length s] (j2len, d0, d0, bs))
               = (d, d, k)"
  using assms
proof (induction "length s - i0" arbitrary: i0 j2len d0 bs)
  case 0
  then show ?case by simp
next
  case (Suc m)
  then have lt: "i0 < length s" by simp
  let ?js = "b2j_get (chain_b s) (s ! i0)"
  let ?r = "flm_inner 0 (length s) i0 j2len ?js (Map.empty, d0, d0, bs)"
  obtain bi' bj' bs' where r: "snd ?r = (bi', bj', bs')" by (cases "snd ?r") auto
  have jmem: "\<And>j. j \<in> set ?js \<Longrightarrow> j < length s" using chain_b_mem by fastforce
  have f: "fst ?r = (\<lambda>j. if j \<in> set ?js then Some (j2len_prev j2len j + 1) else None)"
    by (rule flm_inner_map) (rule jmem)
  have d: "bi' = bj' \<and> (\<forall>j\<le>i0. live_run s j \<le> bs')"
  proof (cases "live s (s ! i0)")
    case True
    have m2: "\<And>j. j \<in> set ?js \<Longrightarrow> j < length s \<and> live s (s ! j)"
    proof -
      fix j assume j: "j \<in> set ?js"
      then have "s ! j = s ! i0" "j < length s" using chain_b_mem by fastforce+
      with True show "j < length s \<and> live s (s ! j)" by simp
    qed
    have i0in: "i0 \<in> set ?js \<or> live_run s i0 \<le> bs"
      using chain_b_live[OF lt] True by (simp add: live_def)
    show ?thesis
      by (rule flm_inner_diag[OF chain_b_sorted m2 True Suc.prems(1) refl Suc.prems(2) i0in r])
  next
    case False
    then have "?js = []" by (simp add: live_def)
    with r False Suc.prems(2) show ?thesis
      by (auto simp: live_run_eq le_less)
  qed
  have ri: "row_inv s (Suc i0) (fst ?r)" unfolding f by (rule row_inv_next[OF lt Suc.prems(1)])
  have b: "\<And>j. j < Suc i0 \<Longrightarrow> live_run s j \<le> bs'" using d by (simp add: less_Suc_eq_le)
  have "\<exists>d k. snd (flm_outer s (chain_b s) 0 (length s) [Suc i0..<length s] (fst ?r, bi', bi', bs'))
               = (d, d, k)"
    by (rule Suc.hyps(1)[OF _ ri b]) (use Suc.hyps(2) lt in simp_all)
  moreover have "?r = (fst ?r, bi', bi', bs')" using r d by (cases ?r) simp
  ultimately show ?case using lt by (simp add: upt_conv_Cons)
qed

lemma extend_back_same:
  "d \<le> length s \<Longrightarrow> extend_back s s False 0 0 (d, d, k) = (0, 0, k + d)"
proof (induction d arbitrary: k)
  case 0
  then show ?case by (subst extend_back.simps) simp
next
  case (Suc d)
  then show ?case by (subst extend_back.simps) (simp add: isbjunk_def)
qed

lemma extend_fwd_same:
  "k \<le> length s \<Longrightarrow> extend_fwd s s False (length s) (length s) (0, 0, k) = (0, 0, length s)"
proof (induction "length s - k" arbitrary: k)
  case 0
  then show ?case by (subst extend_fwd.simps) simp
next
  case (Suc m)
  then have "extend_fwd s s False (length s) (length s) (0, 0, Suc k) = (0, 0, length s)"
    by simp
  with Suc show ?case by (subst extend_fwd.simps) (simp add: isbjunk_def)
qed

lemma extend_back_junk: "extend_back a b True alo blo m = m"
proof -
  obtain i j k where m: "m = (i, j, k)" by (cases m) auto
  show ?thesis unfolding m by (subst extend_back.simps) (simp add: isbjunk_def)
qed

lemma extend_fwd_junk: "extend_fwd a b True ahi bhi m = m"
proof -
  obtain i j k where m: "m = (i, j, k)" by (cases m) auto
  show ?thesis unfolding m by (subst extend_fwd.simps) (simp add: isbjunk_def)
qed

lemma find_longest_match_same:
  "find_longest_match s s (chain_b s) 0 (length s) 0 (length s) = (0, 0, length s)"
proof -
  let ?m = "snd (flm_outer s (chain_b s) 0 (length s) [0..<length s] (Map.empty, 0, 0, 0))"
  have ri: "row_inv s 0 Map.empty" by (simp add: row_inv_def j2len_prev_def run_before_def)
  obtain d k where m: "?m = (d, d, k)"
    using flm_outer_diag[OF ri, of 0 0] by auto
  have "best_ok 0 (length s) ?m"
    by (rule flm_outer_bounds) (simp_all add: best_ok_def)
  with m have dk: "d + k \<le> length s" by (simp add: best_ok_def)
  then have "extend_back s s False 0 0 (d, d, k) = (0, 0, k + d)"
    by (intro extend_back_same) simp
  moreover have "extend_fwd s s False (length s) (length s) (0, 0, k + d) = (0, 0, length s)"
    by (rule extend_fwd_same) (use dk in simp)
  ultimately show ?thesis
    unfolding find_longest_match_def m by (simp add: extend_back_junk extend_fwd_junk)
qed

lemma ratio_same: "ratio s s = 1"
proof (cases "s = []")
  case True
  then show ?thesis
    by (simp add: ratio_def get_matching_blocks_def find_longest_match_same[of "[]", simplified]
        calculate_ratio_def)
next
  case False
  then have "mb_loop s s (chain_b s) [(0, length s, 0, length s)] [] = [(0, 0, length s)]"
    by (simp add: find_longest_match_same)
  with False show ?thesis
    by (simp add: ratio_def get_matching_blocks_def calculate_ratio_def)
qed


section \<open>Properties of the conflict detector\<close>

lemma category_similarity_sym: "category_similarity x y = category_similarity y x"
  by (simp add: category_similarity_def Let_def Int_commute Un_commute disj_commute)

lemma category_similarity_same:
  "categories_of c \<noteq> {} \<Longrightarrow> category_similarity c c = 1"
proof -
  assume ne: "categories_of c \<noteq> {}"
  have "finite (categories_of c)" by (simp add: categories_of_def)
  with ne have "card (categories_of c) > 0" by (simp add: card_gt_0_iff)
  with ne show ?thesis by (simp add: category_similarity_def Let_def)
qed

lemma normalize_content_cong:
  "or_empty (nazwa_zadania a) = or_empty (nazwa_zadania b) \<Longrightarrow>
   or_empty (opis_projektu a) = or_empty (opis_projektu b) \<Longrightarrow>
   or_empty (szczegolowe_uzasadnienie a) = or_empty (szczegolowe_uzasadnienie b) \<Longrightarrow>
   normalize_content U a = normalize_content U b"
  by (simp add: normalize_content_def)

definition cross_department :: "entry list \<Rightarrow> conflict_report \<Rightarrow> bool" where
  "cross_department es c =
     (\<exists>ea eb. ea \<in> set es \<and> eb \<in> set es \<and> entry_id ea = cr_entry_a_id c
        \<and> entry_id eb = cr_entry_b_id c \<and> department_id ea \<noteq> department_id eb)"

lemma create_conflict_ids:
  "cr_entry_a_id (create_conflict db a b sim year) = entry_id a"
  "cr_entry_b_id (create_conflict db a b sim year) = entry_id b"
  by (simp_all add: create_conflict_def Let_def)

lemma detect_inner_cross:
  assumes "list_all (cross_department es) found" and "a \<in> set es" and "set rest \<subseteq> set es"
    and "detect_inner U year a rest (found, pp, db) = (found', pp', db')"
  shows "list_all (cross_department es) found'"
  using assms(1,3,4)
proof (induction rest arbitrary: found pp db)
  case Nil
  then show ?case by simp
next
  case (Cons b rest)
  have sub: "set rest \<subseteq> set es" and bin: "b \<in> set es" using Cons.prems(2) by simp_all
  let ?key = "(min (entry_id a) (entry_id b), max (entry_id a) (entry_id b))"
  let ?sim = "calculate_similarity U a b"
  let ?c = "create_conflict db a b ?sim year"
  consider (same) "department_id a = department_id b"
    | (seen) "department_id a \<noteq> department_id b" "?key \<in> pp"
    | (hit) "department_id a \<noteq> department_id b" "?key \<notin> pp" "?sim \<ge> SIMILARITY_THRESHOLD"
    | (miss) "department_id a \<noteq> department_id b" "?key \<notin> pp" "\<not> ?sim \<ge> SIMILARITY_THRESHOLD"
    by blast
  then show ?case
  proof cases
    case same
    then have "detect_inner U year a rest (found, pp, db) = (found', pp', db')"
      using Cons.prems(3) by simp
    from Cons.IH[OF Cons.prems(1) sub this] show ?thesis .
  next
    case seen
    then have "detect_inner U year a rest (found, pp, db) = (found', pp', db')"
      using Cons.prems(3) by (simp add: Let_def)
    from Cons.IH[OF Cons.prems(1) sub this] show ?thesis .
  next
    case hit
    then have r: "detect_inner U year a rest (found @ [?c], insert ?key pp,
                    save_conflict (entry_id a) (entry_id b) ?sim (cr_conflict_type ?c) db)
                  = (found', pp', db')"
      using Cons.prems(3) by (simp add: Let_def)
    have "cross_department es ?c"
      unfolding cross_department_def create_conflict_ids
      using assms(2) bin hit(1) by blast
    with Cons.prems(1) have "list_all (cross_department es) (found @ [?c])" by simp
    from Cons.IH[OF this sub r] show ?thesis .
  next
    case miss
    then have "detect_inner U year a rest (found, insert ?key pp, db) = (found', pp', db')"
      using Cons.prems(3) by (simp add: Let_def)
    from Cons.IH[OF Cons.prems(1) sub this] show ?thesis .
  qed
qed

lemma detect_outer_cross:
  assumes "list_all (cross_department es) (fst st)" and "set xs \<subseteq> set es"
  shows "list_all (cross_department es) (fst (detect_outer U year xs st))"
  using assms
proof (induction xs arbitrary: st)
  case Nil
  then show ?case by simp
next
  case (Cons a rest)
  obtain found pp db where st: "st = (found, pp, db)" by (cases st) auto
  obtain found' pp' db' where r: "detect_inner U year a rest (found, pp, db) = (found', pp', db')"
    by (cases "detect_inner U year a rest (found, pp, db)") auto
  have "list_all (cross_department es) found'"
    by (rule detect_inner_cross[OF _ _ _ r]) (use Cons.prems st in auto)
  then have "list_all (cross_department es) (fst (detect_outer U year rest (found', pp', db')))"
    by (intro Cons.IH) (use Cons.prems in auto)
  then show ?case by (simp add: st r)
qed

lemma detect_conflicts_cross:
  assumes "detect_conflicts U db year = Inr (found, db')"
  shows "list_all (cross_department (entries db)) found"
proof -
  let ?r = "detect_outer U year (filter (positive_in year) (entries db)) ([], {}, db)"
  have "list_all (cross_department (entries db)) (fst ?r)"
    by (rule detect_outer_cross) auto
  moreover have "set found = set (fst ?r)"
    using assms by (auto simp: detect_conflicts_def split: if_splits prod.splits)
  ultimately show ?thesis by (simp add: list_all_iff)
qed

lemma calculate_similarity_diff:
  "calculate_similarity U a b - calculate_similarity U b a
     = (ratio (normalize_content U a) (normalize_content U b)
        - ratio (normalize_content U b) (normalize_content U a)) * 0.4"
  by (simp add: calculate_similarity_def Let_def category_similarity_sym[of "normalize_content U a"]
      eq_commute[of "paragraf a"] algebra_simps)


text \<open>
  Claim C3, as stated, fails: \<open>SequenceMatcher.ratio\<close> depends on the order of its
  arguments.  For the texts \<open>tide\<close> and \<open>diet\<close> (the example of the library's own
  documentation) the ratio is 0.25 one way and 0.5 the other, and so the similarity of
  the two entries is 0.3 one way and 0.4 the other.
\<close>

theorem similarity_not_symmetric:
  "calculate_similarity ascii_tables (named_entry 1 1 ''tide'' 100) (named_entry 2 2 ''diet'' 100) = 3 / 10
   \<and> calculate_similarity ascii_tables (named_entry 2 2 ''diet'' 100) (named_entry 1 1 ''tide'' 100) = 4 / 10"
  by code_simp

text \<open>
  Claim C3, amended.  The category and the paragraph component of the similarity are
  symmetric, so the similarity of (A, B) and of (B, A) differ by exactly 0.4 times the
  difference of the two sequence ratios; and every conflict that \<open>detect_conflicts\<close>
  reports is made of two entries of the store with different \<open>department_id\<close>.
\<close>

theorem similarity_symmetric_up_to_ratio:
  "calculate_similarity U a b - calculate_similarity U b a
     = (ratio (normalize_content U a) (normalize_content U b)
        - ratio (normalize_content U b) (normalize_content U a)) * 0.4
   \<and> (detect_conflicts U db year = Inr (found, db') \<longrightarrow>
        (\<forall>c \<in> set found.
           \<exists>ea eb. ea \<in> set (entries db) \<and> eb \<in> set (entries db)
             \<and> entry_id ea = cr_entry_a_id c \<and> entry_id eb = cr_entry_b_id c
             \<and> department_id ea \<noteq> department_id eb))"
  using calculate_similarity_diff[of U a b] detect_conflicts_cross[of U db year found db']
  by (simp add: list_all_iff cross_department_def)

lemma store_two_servers_run:
  "(case detect_conflicts ascii_tables store_two_servers 2025 of
      Inl e \<Rightarrow> False
    | Inr (found, db') \<Rightarrow>
        map (\<lambda>c. (cr_entry_a_id c, cr_entry_b_id c, cr_similarity_score c)) found = [(1, 2, 1)])"
  by code_simp

theorem similarity_symmetric_up_to_ratio_witness:
  "\<exists>c db'. detect_conflicts ascii_tables store_two_servers 2025 = Inr ([c], db')
     \<and> cr_entry_a_id c = 1 \<and> cr_entry_b_id c = 2
     \<and> (\<exists>ea eb. ea \<in> set (entries store_two_servers) \<and> eb \<in> set (entries store_two_servers)
           \<and> entry_id ea = 1 \<and> entry_id eb = 2 \<and> department_id ea \<noteq> department_id eb)"
proof -
  obtain found db' where r: "detect_conflicts ascii_tables store_two_servers 2025 = Inr (found, db')"
    and m: "map (\<lambda>c. (cr_entry_a_id c, cr_entry_b_id c, cr_similarity_score c)) found = [(1, 2, 1)]"
    using store_two_servers_run by (auto split: sum.splits prod.splits)
  from m obtain c where f: "found = [c]" and ids: "cr_entry_a_id c = 1" "cr_entry_b_id c = 2"
    by auto
  from similarity_symmetric_up_to_ratio[where U = ascii_tables and db = store_two_servers
      and year = 2025 and found = found and db' = db'] r f
  have "\<exists>ea eb. ea \<in> set (entries store_two_servers) \<and> eb \<in> set (entries store_two_servers)
          \<and> entry_id ea = cr_entry_a_id c \<and> entry_id eb = cr_entry_b_id c
          \<and> department_id ea \<noteq> department_id eb"
    by simp
  with r f ids show ?thesis by auto
qed

text \<open>
  Claim C4, as stated, fails: two entries with the same text that carries no category
  keyword have the same (empty) tag set, and the category component is then 0.  Their
  similarity is 0.4 + 0.2 = 0.6.
\<close>

theorem identical_untagged_entries_similarity:
  "calculate_similarity ascii_tables (named_entry 1 1 ''abc'' 100) (named_entry 2 2 ''abc'' 100) = 6 / 10
   \<and> categories_of (normalize_content ascii_tables (named_entry 1 1 ''abc'' 100)) = {}"
  by code_simp

text \<open>
  Claim C4, amended.  Two entries with the same name, description and justification
  text, the same paragraph code, and at least one category keyword in the text have
  similarity 1.
\<close>

theorem identical_entries_similarity:
  assumes "or_empty (nazwa_zadania a) = or_empty (nazwa_zadania b)"
    and "or_empty (opis_projektu a) = or_empty (opis_projektu b)"
    and "or_empty (szczegolowe_uzasadnienie a) = or_empty (szczegolowe_uzasadnienie b)"
    and "paragraf a = paragraf b"
    and "categories_of (normalize_content U a) \<noteq> {}"
  shows "calculate_similarity U a b = 1"
proof -
  have n: "normalize_content U b = normalize_content U a"
    using normalize_content_cong[OF assms(1-3)] by simp
  show ?thesis
    using assms(4,5) by (simp add: calculate_similarity_def n ratio_same category_similarity_same)
qed

lemma server_entry_tagged:
  "categories_of (normalize_content ascii_tables (named_entry 1 1 ''serwer'' 100)) = {Hardware}"
  by code_simp

theorem identical_entries_similarity_witness:
  "calculate_similarity ascii_tables (named_entry 1 1 ''serwer'' 100) (named_entry 2 2 ''serwer'' 50) = 1
   \<and> department_id (named_entry 1 1 ''serwer'' 100) \<noteq> department_id (named_entry 2 2 ''serwer'' 50)"
  using identical_entries_similarity[where a = "named_entry 1 1 ''serwer'' 100"
      and b = "named_entry 2 2 ''serwer'' 50" and U = ascii_tables]
  by (simp add: server_entry_tagged) (simp add: named_entry_def blank_entry_def)


section \<open>Properties of conflict resolution\<close>

lemma get_entry_id: "get_entry db i = Some e \<Longrightarrow> entry_id e = i"
  by (auto simp: get_entry_def find_Some_iff)

lemma find_map_replace_same:
  "find (\<lambda>e. entry_id e = entry_id e') xs \<noteq> None \<Longrightarrow>
   find (\<lambda>e. entry_id e = entry_id e') (map (\<lambda>e. if entry_id e = entry_id e' then e' else e) xs)
     = Some e'"
  by (induction xs) auto

lemma find_map_replace_other:
  "i \<noteq> entry_id e' \<Longrightarrow>
   find (\<lambda>e. entry_id e = i) (map (\<lambda>e. if entry_id e = entry_id e' then e' else e) xs)
     = find (\<lambda>e. entry_id e = i) xs"
  by (induction xs) auto

lemma get_put_same:
  "get_entry db (entry_id e') = Some e \<Longrightarrow> get_entry (put_entry e' db) (entry_id e') = Some e'"
  by (simp add: get_entry_def put_entry_def find_map_replace_same)

lemma get_put_other:
  "i \<noteq> entry_id e' \<Longrightarrow> get_entry (put_entry e' db) i = get_entry db i"
  by (simp add: get_entry_def put_entry_def find_map_replace_other)

lemma entry_id_set_kwota: "entry_id (set_kwota y v e) = entry_id e"
  by (simp add: set_kwota_def)

lemma consolidate_year_get:
  assumes "get_entry db k = Some ke" and "get_entry db r = Some re" and "k \<noteq> r"
  shows "get_entry (consolidate_year k r y db) k
           = Some (set_kwota y (Some ((or0 (kwota y ke) + or0 (kwota y re)) * 0.85)) ke)"
    and "get_entry (consolidate_year k r y db) r = Some re"
proof -
  let ?ke = "set_kwota y (Some ((or0 (kwota y ke) + or0 (kwota y re)) * 0.85)) ke"
  have id: "entry_id ?ke = k" using get_entry_id[OF assms(1)] by (simp add: entry_id_set_kwota)
  have c: "consolidate_year k r y db = put_entry ?ke db"
    using assms(1,2) by (simp add: consolidate_year_def Let_def)
  show "get_entry (consolidate_year k r y db) k = Some ?ke"
    unfolding c using get_put_same[of db ?ke ke] assms(1) id by simp
  show "get_entry (consolidate_year k r y db) r = Some re"
    unfolding c using get_put_other[of r ?ke db] assms(2,3) id by simp
qed

lemma update_entry_get:
  assumes "get_entry db i = Some e" and "entry_id (f e) = entry_id e"
  shows "get_entry (update_entry i f db) i = Some (f e)"
    and "j \<noteq> i \<Longrightarrow> get_entry (update_entry i f db) j = get_entry db j"
proof -
  have id: "entry_id (f e) = i" using assms get_entry_id by simp
  have u: "update_entry i f db = put_entry (f e) db" using assms(1) by (simp add: update_entry_def)
  show "get_entry (update_entry i f db) i = Some (f e)"
    unfolding u using get_put_same[of db "f e" e] id assms(1) by simp
  show "j \<noteq> i \<Longrightarrow> get_entry (update_entry i f db) j = get_entry db j"
    unfolding u using get_put_other[of j "f e" db] id by simp
qed

lemma get_entry_conflicts_update [simp]:
  "get_entry (db\<lparr>conflicts := cs\<rparr>) i = get_entry db i"
  by (simp add: get_entry_def)

definition consolidated_keep :: "entry \<Rightarrow> entry \<Rightarrow> int \<Rightarrow> real option" where
  "consolidated_keep ke re y = Some ((or0 (kwota y ke) + or0 (kwota y re)) * 0.85)"

lemma fold_consolidate_get:
  assumes "get_entry db k = Some ke" and "get_entry db r = Some re" and "k \<noteq> r"
  shows "\<exists>ke'. get_entry (fold (consolidate_year k r) [2025, 2026, 2027, 2028, 2029] db) k = Some ke'
           \<and> kwota_2025 ke' = consolidated_keep ke re 2025
           \<and> kwota_2026 ke' = consolidated_keep ke re 2026
           \<and> kwota_2027 ke' = consolidated_keep ke re 2027
           \<and> kwota_2028 ke' = consolidated_keep ke re 2028
           \<and> kwota_2029 ke' = consolidated_keep ke re 2029"
    and "get_entry (fold (consolidate_year k r) [2025, 2026, 2027, 2028, 2029] db) r = Some re"
proof -
  let ?d1 = "consolidate_year k r 2025 db"
  let ?d2 = "consolidate_year k r 2026 ?d1"
  let ?d3 = "consolidate_year k r 2027 ?d2"
  let ?d4 = "consolidate_year k r 2028 ?d3"
  let ?d5 = "consolidate_year k r 2029 ?d4"
  note s1 = consolidate_year_get[OF assms(1) assms(2) assms(3), of 2025]
  note s2 = consolidate_year_get[OF s1(1) s1(2) assms(3), of 2026]
  note s3 = consolidate_year_get[OF s2(1) s2(2) assms(3), of 2027]
  note s4 = consolidate_year_get[OF s3(1) s3(2) assms(3), of 2028]
  note s5 = consolidate_year_get[OF s4(1) s4(2) assms(3), of 2029]
  have f: "fold (consolidate_year k r) [2025, 2026, 2027, 2028, 2029] db = ?d5" by simp
  show "get_entry (fold (consolidate_year k r) [2025, 2026, 2027, 2028, 2029] db) r = Some re"
    unfolding f by (rule s5(2))
  show "\<exists>ke'. get_entry (fold (consolidate_year k r) [2025, 2026, 2027, 2028, 2029] db) k = Some ke'
           \<and> kwota_2025 ke' = consolidated_keep ke re 2025
           \<and> kwota_2026 ke' = consolidated_keep ke re 2026
           \<and> kwota_2027 ke' = consolidated_keep ke re 2027
           \<and> kwota_2028 ke' = consolidated_keep ke re 2028
           \<and> kwota_2029 ke' = consolidated_keep ke re 2029"
    unfolding f s5(1) by (simp add: set_kwota_def kwota_def consolidated_keep_def)
qed


text \<open>
  Claim C5.  When a conflict is resolved with \<open>consolidate\<close> and \<open>keep_entry_id\<close> names
  one entry of the pair (the pair being two different existing entries, and the key not
  0), each of the five yearly amounts of the kept entry becomes (kept amount + removed
  amount) * 0.85 for that year, a missing amount counting as 0; on the removed entry the
  amounts of 2025, 2026 and 2027 become 0 and those of 2028 and 2029 stay as they were.
\<close>

theorem consolidate_amounts:
  assumes "find (\<lambda>c. conflict_id c = cid) (conflicts db) = Some conflict"
    and "entry_a_id conflict = Some ia" and "entry_b_id conflict = Some ib" and "ia \<noteq> ib"
    and "(keep_id, remove_id) = (ia, ib) \<or> (keep_id, remove_id) = (ib, ia)"
    and "keep_id \<noteq> 0"
    and "get_entry db keep_id = Some ke" and "get_entry db remove_id = Some re"
  shows "\<exists>db' ke' re'.
      resolve_conflict db cid (u ''consolidate'') (Some keep_id) remark
        = (Resolved (u ''consolidate''), db')
    \<and> get_entry db' keep_id = Some ke' \<and> get_entry db' remove_id = Some re'
    \<and> kwota_2025 ke' = Some ((or0 (kwota_2025 ke) + or0 (kwota_2025 re)) * 0.85)
    \<and> kwota_2026 ke' = Some ((or0 (kwota_2026 ke) + or0 (kwota_2026 re)) * 0.85)
    \<and> kwota_2027 ke' = Some ((or0 (kwota_2027 ke) + or0 (kwota_2027 re)) * 0.85)
    \<and> kwota_2028 ke' = Some ((or0 (kwota_2028 ke) + or0 (kwota_2028 re)) * 0.85)
    \<and> kwota_2029 ke' = Some ((or0 (kwota_2029 ke) + or0 (kwota_2029 re)) * 0.85)
    \<and> kwota_2025 re' = Some 0 \<and> kwota_2026 re' = Some 0 \<and> kwota_2027 re' = Some 0
    \<and> kwota_2028 re' = kwota_2028 re \<and> kwota_2029 re' = kwota_2029 re"
proof -
  have ne: "keep_id \<noteq> remove_id" using assms(4,5) by auto
  have rid: "(if Some keep_id = entry_a_id conflict then entry_b_id conflict
              else entry_a_id conflict) = Some remove_id"
    using assms(2-5) by auto
  have rre: "entry_id re = remove_id" using get_entry_id[OF assms(8)] .
  let ?d0 = "fold (consolidate_year keep_id remove_id) [2025, 2026, 2027, 2028, 2029] db"
  from fold_consolidate_get[OF assms(7,8) ne] obtain k1 where
    k1: "get_entry ?d0 keep_id = Some k1"
    and kv: "kwota_2025 k1 = consolidated_keep ke re 2025"
      "kwota_2026 k1 = consolidated_keep ke re 2026"
      "kwota_2027 k1 = consolidated_keep ke re 2027"
      "kwota_2028 k1 = consolidated_keep ke re 2028"
      "kwota_2029 k1 = consolidated_keep ke re 2029"
    and r1: "get_entry ?d0 remove_id = Some re" by blast
  let ?fk = "\<lambda>e. e\<lparr>uwagi := Some (or_empty (uwagi e) @ [10] @ u ''[SKONSOLIDOWANO z pozycji ''
                        @ str_int remove_id @ u '']'')\<rparr>"
  let ?d1 = "update_entry keep_id ?fk ?d0"
  have k2: "get_entry ?d1 keep_id = Some (?fk k1)"
    by (rule update_entry_get(1)[OF k1]) simp
  have r2: "get_entry ?d1 remove_id = Some re"
    using update_entry_get(2)[OF k1, of ?fk remove_id] ne r1 by simp
  let ?fz = "\<lambda>e. e\<lparr>kwota_2025 := Some 0, kwota_2026 := Some 0, kwota_2027 := Some 0\<rparr>"
  let ?d2 = "update_entry remove_id ?fz ?d1"
  have r3: "get_entry ?d2 remove_id = Some (?fz re)"
    by (rule update_entry_get(1)[OF r2]) simp
  have k3: "get_entry ?d2 keep_id = Some (?fk k1)"
    using update_entry_get(2)[OF r2, of ?fz keep_id] ne k2 by simp
  let ?fr = "\<lambda>e. e\<lparr>uwagi := Some (or_empty (uwagi e) @ [10] @ u ''[PRZENIESIONO do pozycji ''
                        @ str_int keep_id @ u '']'')\<rparr>"
  let ?d3 = "update_entry remove_id ?fr ?d2"
  have r4: "get_entry ?d3 remove_id = Some (?fr (?fz re))"
    by (rule update_entry_get(1)[OF r3]) simp
  have k4: "get_entry ?d3 keep_id = Some (?fk k1)"
    using update_entry_get(2)[OF r3, of ?fr keep_id] ne k3 by simp
  let ?db' = "?d3\<lparr>conflicts :=
                 map (\<lambda>c. if conflict_id c = cid
                           then c\<lparr>resolution_status := Some (u ''resolved''),
                                  resolution_notes := or_str remark (Some (u ''consolidate''))\<rparr>
                           else c) (conflicts ?d3)\<rparr>"
  have res: "resolve_conflict db cid (u ''consolidate'') (Some keep_id) remark
               = (Resolved (u ''consolidate''), ?db')"
    unfolding resolve_conflict_def
    using assms(1,6,7,8) rid rre by (simp add: truthy_int_def Let_def)
  have "get_entry ?db' keep_id = Some (?fk k1)" "get_entry ?db' remove_id = Some (?fr (?fz re))"
    using k4 r4 by simp_all
  with res kv show ?thesis
    by (intro exI[of _ ?db'] exI[of _ "?fk k1"] exI[of _ "?fr (?fz re)"])
       (simp add: consolidated_keep_def kwota_def)
qed

lemma store_conflict_facts:
  "find (\<lambda>c. conflict_id c = 1) (conflicts store_conflict) = Some (hd (conflicts store_conflict))"
  "entry_a_id (hd (conflicts store_conflict)) = Some 1"
  "entry_b_id (hd (conflicts store_conflict)) = Some 2"
  "get_entry store_conflict 1 = Some (hd (entries store_conflict))"
  "get_entry store_conflict 2 = Some (hd (tl (entries store_conflict)))"
  by (simp_all add: store_conflict_def get_entry_def named_entry_def blank_entry_def)

theorem consolidate_amounts_witness:
  "\<exists>db' ke' re'.
      resolve_conflict store_conflict 1 (u ''consolidate'') (Some 1) None
        = (Resolved (u ''consolidate''), db')
    \<and> get_entry db' 1 = Some ke' \<and> get_entry db' 2 = Some re'
    \<and> kwota_2025 ke' = Some 127.5 \<and> kwota_2028 ke' = Some 34 \<and> kwota_2029 ke' = Some 0
    \<and> kwota_2025 re' = Some 0 \<and> kwota_2028 re' = Some 30"
proof -
  have "(1::int) \<noteq> 2" "(1::int, 2::int) = (1, 2) \<or> (1::int, 2::int) = (2, 1)" "(1::int) \<noteq> 0"
    by simp_all
  from consolidate_amounts[where keep_id = 1 and remove_id = 2 and remark = None,
      OF store_conflict_facts(1,2,3) this store_conflict_facts(4,5)]
  obtain db' ke' re' where
    "resolve_conflict store_conflict 1 (u ''consolidate'') (Some 1) None
        = (Resolved (u ''consolidate''), db')"
    "get_entry db' 1 = Some ke'" "get_entry db' 2 = Some re'"
    "kwota_2025 ke' = Some 127.5" "kwota_2028 ke' = Some 34" "kwota_2029 ke' = Some 0"
    "kwota_2025 re' = Some 0" "kwota_2028 re' = Some 30"
    by (auto simp: store_conflict_def named_entry_def blank_entry_def or0_def)
  then show ?thesis by blast
qed


section \<open>Properties of the gap optimizer\<close>

lemma sum_list_insort_key:
  "sum_list (map f (insort_key k x xs)) = f x + sum_list (map f xs)"
  for f :: "'a \<Rightarrow> real"
  by (induction xs) simp_all

lemma sum_list_sort_key:
  "sum_list (map f (sort_key k xs)) = sum_list (map f xs)"
  for f :: "'a \<Rightarrow> real"
  by (induction xs) (simp_all add: sum_list_insort_key)

lemma make_suggestion_id: "sg_entry_id (make_suggestion U db year e a) = entry_id e"
  by (simp add: make_suggestion_def Let_def)

lemma make_suggestion_savings:
  "0 < a \<Longrightarrow> sg_savings (make_suggestion U db year e a) \<le> a"
  by (simp add: make_suggestion_def Let_def algebra_simps)

lemma cut_loop_inv:
  assumes "cut_loop U db year target xs (sg, cum) = (sg', cum')"
  shows "\<exists>new. sg' = sg @ new \<and> cum' = cum + sum_list (map sg_savings new)
           \<and> set (map sg_entry_id new) \<subseteq> entry_id ` set xs
           \<and> sum_list (map sg_savings new) \<le> sum_list (map (\<lambda>e. max 0 (or0 (kwota year e))) xs)"
  using assms
proof (induction xs arbitrary: sg cum)
  case Nil
  then show ?case by simp
next
  case (Cons e rest)
  have nonneg: "0 \<le> sum_list (map (\<lambda>e. max 0 (or0 (kwota year e))) rest)"
    by (rule sum_list_nonneg) auto
  consider (stop) "cum \<ge> target"
    | (skip) "\<not> cum \<ge> target" "or0 (kwota year e) \<le> 0"
    | (take) "\<not> cum \<ge> target" "\<not> or0 (kwota year e) \<le> 0" by blast
  then show ?case
  proof cases
    case stop
    with Cons.prems have "sg' = sg" "cum' = cum" by simp_all
    with nonneg show ?thesis by (intro exI[of _ "[]"]) (simp add: add_nonneg_nonneg)
  next
    case skip
    with Cons.prems have "cut_loop U db year target rest (sg, cum) = (sg', cum')" by simp
    from Cons.IH[OF this] obtain new where
      "sg' = sg @ new" "cum' = cum + sum_list (map sg_savings new)"
      "set (map sg_entry_id new) \<subseteq> entry_id ` set rest"
      "sum_list (map sg_savings new) \<le> sum_list (map (\<lambda>e. max 0 (or0 (kwota year e))) rest)"
      by blast
    then show ?thesis by (intro exI[of _ new]) (auto simp: add_increasing)
  next
    case take
    let ?s = "make_suggestion U db year e (or0 (kwota year e))"
    from take Cons.prems
    have "cut_loop U db year target rest (sg @ [?s], cum + sg_savings ?s) = (sg', cum')"
      by (simp add: Let_def)
    from Cons.IH[OF this] obtain new where n:
      "sg' = (sg @ [?s]) @ new" "cum' = cum + sg_savings ?s + sum_list (map sg_savings new)"
      "set (map sg_entry_id new) \<subseteq> entry_id ` set rest"
      "sum_list (map sg_savings new) \<le> sum_list (map (\<lambda>e. max 0 (or0 (kwota year e))) rest)"
      by blast
    have "sg_savings ?s \<le> max 0 (or0 (kwota year e))"
      using make_suggestion_savings[of "or0 (kwota year e)" U db year e] take(2) by simp
    with n show ?thesis
      by (intro exI[of _ "?s # new"]) (auto simp: make_suggestion_id)
  qed
qed


lemma cuttable_sum:
  "sum_list (map (\<lambda>e. max 0 (or0 (kwota year e))) (cuttable_entries db year))
     = sum_list (map (\<lambda>e. or0 (kwota year e))
         (filter (\<lambda>e. is_obligatory e = Some False \<and> positive_in year e) (entries db)))"
proof -
  let ?xs = "filter (\<lambda>e. is_obligatory e = Some False \<and> positive_in year e) (entries db)"
  have "map (\<lambda>e. max 0 (or0 (kwota year e))) ?xs = map (\<lambda>e. or0 (kwota year e)) ?xs"
    by (rule map_cong) (auto simp: positive_in_def or0_def split: option.splits)
  then have "sum_list (map (\<lambda>e. max 0 (or0 (kwota year e))) ?xs)
             = sum_list (map (\<lambda>e. or0 (kwota year e)) ?xs)"
    by (rule arg_cong)
  then show ?thesis unfolding cuttable_entries_def sum_list_sort_key .
qed

lemma analyze_budget_gap_over:
  assumes "valid_year year"
    and "find (\<lambda>g. limit_year g = year) (global_limits db) = Some gl"
    and "year_total db year > total_limit gl"
  shows "\<exists>gap. analyze_budget_gap db year = Inr (Gap gap) \<and> gap_is_over_limit gap"
  using assms by (simp add: analyze_budget_gap_def Let_def)

text \<open>
  Claim C1.  For every call of \<open>generate_cut_suggestions(target, year)\<close> on a store whose
  total for that year exceeds the global limit, the call returns a plan; every suggestion
  of the plan comes from an entry of the store with \<open>is_obligatory = false\<close> and a
  positive amount (so, the keys being unique, no suggestion refers to an obligatory
  entry); the reported \<open>achievable_reduction\<close> is the sum of the suggestions' savings;
  and it does not exceed the sum of the positive year-amounts of the non-obligatory
  entries.  The bound does not depend on the order in which the database returns the
  cuttable rows.
\<close>

theorem cut_suggestions_spare_obligatory:
  assumes "valid_year year"
    and "find (\<lambda>g. limit_year g = year) (global_limits db) = Some gl"
    and "year_total db year > total_limit gl"
  shows "\<exists>plan. generate_cut_suggestions U db target year = Inr (Cuts plan)
    \<and> (\<forall>s \<in> set (cp_suggestions plan).
          \<exists>e \<in> set (entries db). entry_id e = sg_entry_id s \<and> is_obligatory e = Some False
             \<and> positive_in year e)
    \<and> (distinct (map entry_id (entries db)) \<longrightarrow>
        (\<forall>s \<in> set (cp_suggestions plan). \<forall>e \<in> set (entries db).
           entry_id e = sg_entry_id s \<longrightarrow> is_obligatory e \<noteq> Some True))
    \<and> cp_achievable_reduction plan = sum_list (map sg_savings (cp_suggestions plan))
    \<and> cp_achievable_reduction plan
        \<le> sum_list (map (\<lambda>e. or0 (kwota year e))
             (filter (\<lambda>e. is_obligatory e = Some False \<and> positive_in year e) (entries db)))"
proof -
  from analyze_budget_gap_over[OF assms] obtain gap where
    g: "analyze_budget_gap db year = Inr (Gap gap)" and over: "gap_is_over_limit gap" by blast
  let ?target = "case target of None \<Rightarrow> gap_variance gap
                 | Some t \<Rightarrow> if t = 0 then gap_variance gap else t"
  obtain found cum where
    l: "cut_loop U db year ?target (cuttable_entries db year) ([], 0) = (found, cum)"
    by (cases "cut_loop U db year ?target (cuttable_entries db year) ([], 0)") auto
  let ?plan = "\<lparr>cp_gap_analysis = gap, cp_target_reduction = ?target,
      cp_achievable_reduction = cum, cp_can_meet_target = (cum \<ge> ?target),
      cp_suggestions = sort_key (\<lambda>s. - sg_deferral_score s) found,
      cp_protected_items = get_protected_items db year\<rparr>"
  have r: "generate_cut_suggestions U db target year = Inr (Cuts ?plan)"
    unfolding generate_cut_suggestions_def g using over l by (simp add: Let_def)
  from cut_loop_inv[OF l] have
    c: "cum = sum_list (map sg_savings found)"
    and ids: "set (map sg_entry_id found) \<subseteq> entry_id ` set (cuttable_entries db year)"
    and le: "sum_list (map sg_savings found)
             \<le> sum_list (map (\<lambda>e. max 0 (or0 (kwota year e))) (cuttable_entries db year))"
    by auto
  have p1: "\<forall>s \<in> set (cp_suggestions ?plan).
          \<exists>e \<in> set (entries db). entry_id e = sg_entry_id s \<and> is_obligatory e = Some False
             \<and> positive_in year e"
  proof
    fix s assume "s \<in> set (cp_suggestions ?plan)"
    then have "sg_entry_id s \<in> set (map sg_entry_id found)" by simp
    with ids obtain e where "e \<in> set (cuttable_entries db year)" "entry_id e = sg_entry_id s"
      by auto
    then show "\<exists>e \<in> set (entries db). entry_id e = sg_entry_id s \<and> is_obligatory e = Some False
             \<and> positive_in year e"
      by (auto simp: cuttable_entries_def)
  qed
  have p2: "distinct (map entry_id (entries db)) \<longrightarrow>
        (\<forall>s \<in> set (cp_suggestions ?plan). \<forall>e \<in> set (entries db).
           entry_id e = sg_entry_id s \<longrightarrow> is_obligatory e \<noteq> Some True)"
  proof (intro impI ballI)
    fix s e assume d: "distinct (map entry_id (entries db))"
      and s: "s \<in> set (cp_suggestions ?plan)" and e: "e \<in> set (entries db)"
      and eq: "entry_id e = sg_entry_id s"
    from p1 s obtain e' where e': "e' \<in> set (entries db)" "entry_id e' = sg_entry_id s"
      "is_obligatory e' = Some False" by blast
    from d e e'(1) eq e'(2) have "e = e'"
      by (metis distinct_map inj_onD)
    with e'(3) show "is_obligatory e \<noteq> Some True" by simp
  qed
  have p3: "cp_achievable_reduction ?plan = sum_list (map sg_savings (cp_suggestions ?plan))"
    using c by (simp add: sum_list_sort_key)
  have p4: "cp_achievable_reduction ?plan
        \<le> sum_list (map (\<lambda>e. or0 (kwota year e))
             (filter (\<lambda>e. is_obligatory e = Some False \<and> positive_in year e) (entries db)))"
    using le c by (simp add: cuttable_sum)
  from r p1 p2 p3 p4 show ?thesis by blast
qed


lemma store_over_limit_facts:
  "valid_year 2025"
  "find (\<lambda>g. limit_year g = 2025) (global_limits store_over_limit)
     = Some \<lparr>limit_year = 2025, total_limit = 100\<rparr>"
  "year_total store_over_limit 2025 > total_limit \<lparr>limit_year = 2025, total_limit = 100\<rparr>"
  by code_simp+

lemma store_over_limit_run:
  "(case generate_cut_suggestions ascii_tables store_over_limit (Some 60) 2025 of
      Inr (Cuts plan) \<Rightarrow>
        map (\<lambda>s. (sg_entry_id s, sg_action s, sg_savings s)) (cp_suggestions plan)
          = [(2, Defer, 50), (3, Reduce, 8)]
        \<and> cp_achievable_reduction plan = 58
    | _ \<Rightarrow> False)"
  by code_simp

theorem cut_suggestions_spare_obligatory_witness:
  "\<exists>plan. generate_cut_suggestions ascii_tables store_over_limit (Some 60) 2025 = Inr (Cuts plan)
     \<and> map sg_entry_id (cp_suggestions plan) = [2, 3]
     \<and> cp_achievable_reduction plan = 58
     \<and> cp_achievable_reduction plan = sum_list (map sg_savings (cp_suggestions plan))"
proof -
  from cut_suggestions_spare_obligatory[OF store_over_limit_facts,
      where U = ascii_tables and target = "Some 60"]
  obtain plan where p: "generate_cut_suggestions ascii_tables store_over_limit (Some 60) 2025 = Inr (Cuts plan)"
    and s: "cp_achievable_reduction plan = sum_list (map sg_savings (cp_suggestions plan))"
    by blast
  from store_over_limit_run p
  have "map (\<lambda>s. (sg_entry_id s, sg_action s, sg_savings s)) (cp_suggestions plan)
          = [(2, Defer, 50), (3, Reduce, 8)]" "cp_achievable_reduction plan = 58"
    by simp_all
  then have "map sg_entry_id (cp_suggestions plan) = [2, 3]" "cp_achievable_reduction plan = 58"
    by (auto simp: map_eq_Cons_conv)
  with p s show ?thesis by (intro exI[of _ plan]) simp
qed

text \<open>
  Claim C10.  For every existing entry and a year from 2025 to 2029, \<open>apply_suggestion\<close>
  with the action \<open>reduce\<close> and no \<open>new_amount\<close> leaves the five yearly amounts (and
  every other entry) as they are, sets the status of the entry to \<open>needs_revision\<close>,
  stores the change, and reports success with \<open>new_amount\<close> 0.
\<close>

lemma reduce_is_not_defer: "u ''reduce'' \<noteq> u ''defer''"
  by (simp add: u_def)

theorem reduce_without_amount:
  assumes "get_entry db eid = Some e" and "valid_year year"
  shows "\<exists>db' e'.
      apply_suggestion fmt db eid (u ''reduce'') None year
        = Inr (Applied \<lparr>ar_entry_id = eid, ar_action = u ''reduce'',
                        ar_old_amount = kwota year e, ar_new_amount = 0\<rparr>, db')
    \<and> get_entry db' eid = Some e'
    \<and> e' = e\<lparr>status := Some NEEDS_REVISION\<rparr>
    \<and> kwota_2025 e' = kwota_2025 e \<and> kwota_2026 e' = kwota_2026 e
    \<and> kwota_2027 e' = kwota_2027 e \<and> kwota_2028 e' = kwota_2028 e
    \<and> kwota_2029 e' = kwota_2029 e
    \<and> status e' = Some NEEDS_REVISION
    \<and> (\<forall>j. j \<noteq> eid \<longrightarrow> get_entry db' j = get_entry db j)"
proof -
  let ?e' = "e\<lparr>status := Some NEEDS_REVISION\<rparr>"
  have id: "entry_id ?e' = eid" using get_entry_id[OF assms(1)] by simp
  have a: "apply_suggestion fmt db eid (u ''reduce'') None year
        = Inr (Applied \<lparr>ar_entry_id = eid, ar_action = u ''reduce'',
                        ar_old_amount = kwota year e, ar_new_amount = 0\<rparr>, put_entry ?e' db)"
    using assms by (simp add: apply_suggestion_def Let_def reduce_is_not_defer or0_def)
  have g: "get_entry (put_entry ?e' db) eid = Some ?e'"
    using get_put_same[of db ?e' e] assms(1) id by simp
  have o: "\<forall>j. j \<noteq> eid \<longrightarrow> get_entry (put_entry ?e' db) j = get_entry db j"
    using get_put_other[of _ ?e' db] id by simp
  from a g o show ?thesis by (intro exI[of _ "put_entry ?e' db"] exI[of _ ?e']) simp
qed

lemma store_over_limit_entry3:
  "get_entry store_over_limit 3
     = Some ((named_entry 3 2 ''Serwis'' 40)\<lparr>priority := Some WYSOKI, is_obligatory := Some False\<rparr>)"
  by (simp add: store_over_limit_def get_entry_def named_entry_def blank_entry_def)

theorem reduce_without_amount_witness:
  "\<exists>db' e'. apply_suggestion (\<lambda>x. []) store_over_limit 3 (u ''reduce'') None 2025
        = Inr (Applied \<lparr>ar_entry_id = 3, ar_action = u ''reduce'',
                        ar_old_amount = Some 40, ar_new_amount = 0\<rparr>, db')
     \<and> get_entry db' 3 = Some e' \<and> kwota_2025 e' = Some 40 \<and> status e' = Some NEEDS_REVISION"
proof -
  have y: "valid_year 2025" by (simp add: valid_year_def)
  from reduce_without_amount[OF store_over_limit_entry3 y, of "\<lambda>x. []"]
  show ?thesis by (auto simp: kwota_def named_entry_def blank_entry_def)
qed


section \<open>Properties of the forecaster\<close>

definition confidence_at :: "int \<Rightarrow> real" where
  "confidence_at offset = max (1 / 2) (1 - 0.15 * of_int offset)"

lemma round_half_even_int: "round_half_even (of_int k) = k"
  by (simp add: round_half_even_def)

lemma py_round_hundredths: "py_round (of_int k / 100) 2 = of_int k / 100"
  by (simp add: py_round_def round_half_even_int)

lemma confidence_hundredths:
  "offset \<ge> 1 \<Longrightarrow> max (0.5::real) (1 - of_int offset * 0.15)
      = of_int (max 50 (100 - 15 * offset)) / 100"
  by (simp add: max_def field_simps) 

lemma confidence_rounded:
  assumes "offset \<ge> 1"
  shows "py_round (max 0.5 (1 - of_int offset * 0.15)) 2 = confidence_at offset"
proof -
  have "py_round (max 0.5 (1 - of_int offset * 0.15)) 2 = max 0.5 (1 - of_int offset * 0.15)"
    unfolding confidence_hundredths[OF assms] by (rule py_round_hundredths)
  then show ?thesis by (simp add: confidence_at_def mult.commute)
qed

lemma forecast_to_dict_fields:
  "fr_year (forecast_to_dict f) = fr_year f"
  "fr_confidence (forecast_to_dict f) = py_round (fr_confidence f) 2"
  by (simp_all add: forecast_to_dict_def)

lemma forecast_year_fields:
  "fr_year (forecast_year base_data year offset) = year"
  "fr_confidence (forecast_year base_data year offset) = max 0.5 (1 - of_int offset * 0.15)"
  by (simp_all add: forecast_year_def Let_def)

lemma forecast_budget_forecasts:
  assumes "forecast_budget U db base_year n = Inr report"
  shows "length (fc_forecasts report) = nat n"
    and "i < length (fc_forecasts report) \<Longrightarrow>
           fr_year (fc_forecasts report ! i) = base_year + (int i + 1)
           \<and> fr_confidence (fc_forecasts report ! i) = confidence_at (int i + 1)"
proof -
  obtain base_data where b: "get_year_data U db base_year = Inr base_data"
    using assms by (cases "get_year_data U db base_year") (auto simp: forecast_budget_def)
  have r: "fc_forecasts report
          = map forecast_to_dict
              (map (\<lambda>offset. forecast_year base_data (base_year + offset) offset) [1..n])"
    using assms unfolding forecast_budget_def b by (auto simp: Let_def)
  show len: "length (fc_forecasts report) = nat n" by (simp add: r)
  assume "i < length (fc_forecasts report)"
  with len have i: "i < nat n" by simp
  then have nth: "[1..n] ! i = 1 + int i" by (simp add: nth_upto)
  have il: "i < length [1..n]" using i by simp
  show "fr_year (fc_forecasts report ! i) = base_year + (int i + 1)
           \<and> fr_confidence (fc_forecasts report ! i) = confidence_at (int i + 1)"
    using il unfolding r
    by (simp add: nth forecast_to_dict_fields forecast_year_fields
        confidence_rounded[of "1 + int i", simplified] add.commute)
qed

lemma confidence_at_bounds:
  "confidence_at k \<ge> 1 / 2"
  "k \<le> l \<Longrightarrow> confidence_at l \<le> confidence_at k"
  "k < l \<Longrightarrow> l \<le> 4 \<Longrightarrow> confidence_at l < confidence_at k"
  by (auto simp: confidence_at_def max_def)


lemma forecast_budget_returns:
  "valid_year base_year \<Longrightarrow> \<exists>report. forecast_budget U db base_year n = Inr report"
  by (simp add: forecast_budget_def get_year_data_def Let_def)

lemma valid_2025: "valid_year 2025"
  by (simp add: valid_year_def)

text \<open>
  Claim C8, as stated, fails: the confidence is not strictly decreasing over any number
  of years.  With five forecast years the offsets 4 and 5 both have confidence 0.5
  (\<open>1 - 0.15 * 4 = 0.4\<close> is already below the floor).
\<close>

theorem forecast_confidence_not_strict:
  "\<exists>report. forecast_budget ascii_tables store_over_limit 2025 5 = Inr report
     \<and> length (fc_forecasts report) = 5
     \<and> fr_confidence (fc_forecasts report ! 3) = 1 / 2
     \<and> fr_confidence (fc_forecasts report ! 4) = 1 / 2"
proof -
  from forecast_budget_returns[OF valid_2025] obtain report where
    r: "forecast_budget ascii_tables store_over_limit 2025 5 = Inr report" by blast
  note f = forecast_budget_forecasts[OF r]
  have l: "length (fc_forecasts report) = 5" using f(1) by simp
  have "fr_confidence (fc_forecasts report ! 3) = confidence_at 4"
    using f(2)[of 3] l by simp
  moreover have "fr_confidence (fc_forecasts report ! 4) = confidence_at 5"
    using f(2)[of 4] l by simp
  moreover have "confidence_at 4 = 1 / 2" "confidence_at 5 = 1 / 2"
    by (simp_all add: confidence_at_def)
  ultimately show ?thesis using r l by (intro exI[of _ report]) simp
qed

text \<open>
  Claim C8, amended.  For a base year from 2025 to 2029 and any number of forecast years,
  \<open>forecast_budget\<close> returns one forecast for each offset from 1 on; the confidence of
  the forecast at an offset equals \<open>max(0.5, 1 - 0.15 * offset)\<close>, is at least 0.5, never
  increases with the offset, and strictly decreases as long as the later offset is at
  most 4.
\<close>

theorem forecast_confidence:
  assumes "valid_year base_year"
  shows "\<exists>report. forecast_budget U db base_year n = Inr report
    \<and> length (fc_forecasts report) = nat n
    \<and> (\<forall>i < length (fc_forecasts report).
          fr_year (fc_forecasts report ! i) = base_year + (int i + 1)
          \<and> fr_confidence (fc_forecasts report ! i) = max (1 / 2) (1 - 0.15 * (real i + 1))
          \<and> fr_confidence (fc_forecasts report ! i) \<ge> 1 / 2)
    \<and> (\<forall>i j. i < j \<and> j < length (fc_forecasts report) \<longrightarrow>
          fr_confidence (fc_forecasts report ! j) \<le> fr_confidence (fc_forecasts report ! i)
          \<and> (int j + 1 \<le> 4 \<longrightarrow>
               fr_confidence (fc_forecasts report ! j) < fr_confidence (fc_forecasts report ! i)))"
proof -
  from forecast_budget_returns[OF assms] obtain report where
    r: "forecast_budget U db base_year n = Inr report" by blast
  note f = forecast_budget_forecasts[OF r]
  have c: "confidence_at (int i + 1) = max (1 / 2) (1 - 0.15 * (real i + 1))" for i
    by (simp add: confidence_at_def)
  have a: "\<forall>i < length (fc_forecasts report).
          fr_year (fc_forecasts report ! i) = base_year + (int i + 1)
          \<and> fr_confidence (fc_forecasts report ! i) = max (1 / 2) (1 - 0.15 * (real i + 1))
          \<and> fr_confidence (fc_forecasts report ! i) \<ge> 1 / 2"
  proof (intro allI impI)
    fix i assume i: "i < length (fc_forecasts report)"
    from f(2)[OF i] have y: "fr_year (fc_forecasts report ! i) = base_year + (int i + 1)"
      and v: "fr_confidence (fc_forecasts report ! i) = confidence_at (int i + 1)" by simp_all
    from v have "fr_confidence (fc_forecasts report ! i) \<ge> 1 / 2"
      using confidence_at_bounds(1)[of "int i + 1"] by simp
    with y v show "fr_year (fc_forecasts report ! i) = base_year + (int i + 1)
          \<and> fr_confidence (fc_forecasts report ! i) = max (1 / 2) (1 - 0.15 * (real i + 1))
          \<and> fr_confidence (fc_forecasts report ! i) \<ge> 1 / 2"
      unfolding c by simp
  qed
  have b: "\<forall>i j. i < j \<and> j < length (fc_forecasts report) \<longrightarrow>
          fr_confidence (fc_forecasts report ! j) \<le> fr_confidence (fc_forecasts report ! i)
          \<and> (int j + 1 \<le> 4 \<longrightarrow>
               fr_confidence (fc_forecasts report ! j) < fr_confidence (fc_forecasts report ! i))"
  proof (intro allI impI)
    fix i j assume ij: "i < j \<and> j < length (fc_forecasts report)"
    then have vj: "fr_confidence (fc_forecasts report ! j) = confidence_at (int j + 1)"
      and vi: "fr_confidence (fc_forecasts report ! i) = confidence_at (int i + 1)"
      using f(2) by simp_all
    have lt: "int i + 1 < int j + 1" using ij by simp
    show "fr_confidence (fc_forecasts report ! j) \<le> fr_confidence (fc_forecasts report ! i)
          \<and> (int j + 1 \<le> 4 \<longrightarrow>
               fr_confidence (fc_forecasts report ! j) < fr_confidence (fc_forecasts report ! i))"
      unfolding vi vj
      using confidence_at_bounds(2)[of "int i + 1" "int j + 1"]
        confidence_at_bounds(3)[OF lt] lt by simp
  qed
  from r f(1) a b show ?thesis by (intro exI[of _ report] conjI)
qed

theorem forecast_confidence_witness:
  "\<exists>report. forecast_budget ascii_tables store_over_limit 2025 3 = Inr report
     \<and> length (fc_forecasts report) = 3
     \<and> fr_confidence (fc_forecasts report ! 0) = 17 / 20
     \<and> fr_confidence (fc_forecasts report ! 1) < fr_confidence (fc_forecasts report ! 0)"
proof -
  from forecast_confidence[OF valid_2025, of ascii_tables store_over_limit 3] obtain report where
    r: "forecast_budget ascii_tables store_over_limit 2025 3 = Inr report"
    and l: "length (fc_forecasts report) = 3"
    and a: "\<forall>i < length (fc_forecasts report).
          fr_year (fc_forecasts report ! i) = 2025 + (int i + 1)
          \<and> fr_confidence (fc_forecasts report ! i) = max (1 / 2) (1 - 0.15 * (real i + 1))
          \<and> fr_confidence (fc_forecasts report ! i) \<ge> 1 / 2"
    and b: "\<forall>i j. i < j \<and> j < length (fc_forecasts report) \<longrightarrow>
          fr_confidence (fc_forecasts report ! j) \<le> fr_confidence (fc_forecasts report ! i)
          \<and> (int j + 1 \<le> 4 \<longrightarrow>
               fr_confidence (fc_forecasts report ! j) < fr_confidence (fc_forecasts report ! i))"
    by auto
  from a l have "fr_confidence (fc_forecasts report ! 0) = 17 / 20" by simp
  moreover from b l have "fr_confidence (fc_forecasts report ! 1) < fr_confidence (fc_forecasts report ! 0)"
    by simp
  ultimately show ?thesis using r l by (intro exI[of _ report]) simp
qed
















end
